theory Spec2Isabelle
  imports Main
begin

section \<open>Data model\<close>

text \<open>
  The bot is modelled by explicit state passing. Everything the JavaScript reaches through
  a third-party library or the operating system (the channel directory, the voice
  transport, the playback engine, the speech service, the clock, the file system, the
  MD5 digest) is a field of the record \<open>env\<close>; everything the program owns and mutates is
  a field of the record \<open>bot\<close>. Exceptions are values of the type \<open>error\<close>.
\<close>

datatype error =
  AudioSetNotFound string
  | AudioFileNotFound string
  | ConnectNotReady string
  | SynthesisFailed string
  | WriteFailed string
  | PlayerFailed string
  | AlreadyDestroyed

datatype level = LDebug | LInfo | LWarn | LError

subsection \<open>events.js\<close>

datatype EventType = AUDIO | AUDIO_ROTATE | TTS

text \<open>\<open>requireUsers\<close> is \<open>None\<close> when the property is absent from the object literal.\<close>

record event =
  name :: string
  cron :: string
  etype :: EventType
  content :: string
  enabled :: bool
  requireUsers :: "bool option"

subsection \<open>config.js\<close>

record config =
  channelIds :: "string list"
  audioDir :: string
  cacheDir :: string
  disconnectDelay :: nat
  tts_voice :: string
  tts_rate :: string
  tts_pitch :: string

text \<open>
  \<open>path.join\<close> of Node on POSIX, for two arguments: the non-empty arguments are joined
  with a slash and the result is normalised. \<open>normalizeString\<close> drops empty and \<open>.\<close>
  segments and lets a \<open>..\<close> segment remove the segment before it; above the start of a
  relative path the \<open>..\<close> stays. The result is never the empty string.
\<close>

fun splitSlash :: "string \<Rightarrow> string list" where
  "splitSlash [] = [[]]"
| "splitSlash (c # cs) =
     (if c = CHR ''/'' then [] # splitSlash cs
      else case splitSlash cs of
             seg # segs \<Rightarrow> (c # seg) # segs
           | [] \<Rightarrow> [[c]])"

fun joinSlash :: "string list \<Rightarrow> string" where
  "joinSlash [] = []"
| "joinSlash [seg] = seg"
| "joinSlash (seg # segs) = seg @ ''/'' @ joinSlash segs"

fun normalizeString :: "bool \<Rightarrow> string list \<Rightarrow> string list \<Rightarrow> string list" where
  "normalizeString allowAboveRoot res [] = res"
| "normalizeString allowAboveRoot res (seg # segs) =
     (if seg = [] \<or> seg = ''.'' then normalizeString allowAboveRoot res segs
      else if seg = ''..'' then
        (if res \<noteq> [] \<and> last res \<noteq> ''..''
         then normalizeString allowAboveRoot (butlast res) segs
         else if allowAboveRoot then normalizeString allowAboveRoot (res @ [''..'']) segs
         else normalizeString allowAboveRoot res segs)
      else normalizeString allowAboveRoot (res @ [seg]) segs)"

definition path_normalize :: "string \<Rightarrow> string" where
  "path_normalize p =
     (let isAbsolute = (p \<noteq> [] \<and> hd p = CHR ''/'');
          trailingSeparator = (p \<noteq> [] \<and> last p = CHR ''/'');
          body = joinSlash (normalizeString (\<not> isAbsolute) [] (splitSlash p))
      in if body = [] then (if isAbsolute then ''/'' else if trailingSeparator then ''./'' else ''.'')
         else (if isAbsolute then ''/'' else []) @ body @ (if trailingSeparator then ''/'' else []))"

definition path_join :: "string \<Rightarrow> string \<Rightarrow> string" where
  "path_join dir file =
     (let joined = (if dir = [] then file else if file = [] then dir else dir @ ''/'' @ file)
      in if joined = [] then ''.'' else path_normalize joined)"

subsection \<open>External collaborators\<close>

text \<open>A guild member as the occupancy check reads it: \<open>member.user.bot\<close>.\<close>

record member =
  user_bot :: bool

record channel =
  ch_id :: string
  ch_name :: string
  ch_guild :: string
  isVoiceBased :: bool
  members :: "member list"

datatype fetched = Throws string | Returns "channel option"

text \<open>
  A voice connection object of the transport library: its identity and its
  \<open>joinConfig\<close>.
\<close>

record conn =
  conn_id :: nat
  conn_guild :: string
  conn_channel :: string

datatype status_event = EvPlaying | EvIdle | EvError

text \<open>The time of day that \<open>_isMaintenanceWindow\<close> reads off the converted date.\<close>

record wallclock =
  dayOfWeek :: nat
  hours :: nat
  minutes :: nat

text \<open>
  The environment. \<open>fetch\<close> takes the number of lookups made so far, so two lookups of
  the same channel may answer differently. \<open>engine\<close> gives, for a resource, the events the
  playback engine emits for it, each with the message of its error.
\<close>

record env =
  md5hex :: "string \<Rightarrow> string"
  path_resolve :: "string \<Rightarrow> string"
  mexicoTime :: wallclock
  localHour :: nat
  fetch :: "nat \<Rightarrow> string \<Rightarrow> fetched"
  entersReady :: "string \<Rightarrow> string \<Rightarrow> bool"
  synthesize :: "string \<Rightarrow> string \<Rightarrow> string \<Rightarrow> string \<Rightarrow> string option"
  write_ok :: "string \<Rightarrow> bool"
  resource_ok :: "string \<Rightarrow> bool"
  engine :: "string \<Rightarrow> (status_event \<times> string) list"
  cron_validate :: "string \<Rightarrow> bool"

subsection \<open>Program state\<close>

datatype action =
  Fetch string
  | JoinVoiceChannel string string
  | Subscribe nat
  | Play string
  | Destroy nat
  | SetTimeout string nat
  | Delay nat
  | Synthesize string string string string
  | WriteFile string
  | CronSchedule string

datatype listener = LogPlaying | CleanupIdle | CleanupError | OnIdle nat | OnError nat

datatype promise = Pending | Resolved | Rejected error

text \<open>
  \<^item> \<open>files\<close>: the file system, from resolved paths to file contents.
  \<^item> \<open>registry\<close>: the transport library's table behind \<open>getVoiceConnection\<close>;
    \<open>created\<close> lists every connection object ever made with its guild, \<open>destroyed\<close> the
    identities of those whose \<open>destroy()\<close> has run.
  \<^item> \<open>connections\<close>: \<open>VoiceConnectionManager.connections\<close>, from a guild to the
    identity of the connection object and the \<open>channelId\<close> stored with it.
  \<^item> \<open>timers\<close>: the pending \<open>setTimeout\<close> callbacks of \<open>disconnectFromChannel\<close>, each
    closed over its guild, in the order they will fire.
  \<^item> \<open>player\<close>, \<open>currentResource\<close>: the fields of \<open>AudioPlayerManager\<close>;
    \<open>listeners\<close> are the observers registered on the engine, per event, in
    registration order; \<open>promises\<close> are the promises \<open>playFile\<close> has returned and
    \<open>plays\<close> counts them.
  \<^item> \<open>pregeneratedAudio\<close>, \<open>scheduledJobs\<close>: the maps of \<open>EventScheduler\<close>; a job is
    represented by the event its callback is closed over.
  \<^item> \<open>trace\<close>: the calls made to collaborators, oldest first; \<open>logs\<close>: the logger calls.
\<close>

record bot =
  files :: "string \<rightharpoonup> string"
  registry :: "string \<rightharpoonup> conn"
  created :: "(nat \<times> string) list"
  destroyed :: "nat set"
  connections :: "string \<rightharpoonup> nat \<times> string"
  timers :: "string list"
  player :: bool
  currentResource :: "string option"
  listeners :: "status_event \<Rightarrow> listener list"
  promises :: "nat \<rightharpoonup> promise"
  plays :: nat
  pregeneratedAudio :: "string \<rightharpoonup> string"
  scheduledJobs :: "string \<rightharpoonup> event"
  fetches :: nat
  trace :: "action list"
  logs :: "(level \<times> string) list"

definition logger :: "level \<Rightarrow> string \<Rightarrow> bot \<Rightarrow> bot" where
  "logger l msg s = s\<lparr>logs := logs s @ [(l, msg)]\<rparr>"

definition act :: "action \<Rightarrow> bot \<Rightarrow> bot" where
  "act a s = s\<lparr>trace := trace s @ [a]\<rparr>"

section \<open>events.js: rotation sets and the event list\<close>

definition audioSets :: "config \<Rightarrow> string \<rightharpoonup> string list" where
  "audioSets cfg =
     [''shugo15'' \<mapsto> [path_join (audioDir cfg) ''shugo.mp3'',
                       path_join (audioDir cfg) ''shugo_1.mp3'',
                       path_join (audioDir cfg) ''shugo_2.mp3''],
      ''shugo10'' \<mapsto> [path_join (audioDir cfg) ''shugo5.mp3'',
                       path_join (audioDir cfg) ''shugo5_1.mp3'',
                       path_join (audioDir cfg) ''shugo5_2.mp3'']]"

text \<open>
  \<open>getRotatedAudio(setName)\<close>, with the table of sets and the hour read from the clock
  as arguments. It throws when the set is missing or empty.
\<close>

definition getRotatedAudio :: "(string \<rightharpoonup> string list) \<Rightarrow> nat \<Rightarrow> string \<Rightarrow> error + string" where
  "getRotatedAudio sets hour setName =
     (case sets setName of
        None \<Rightarrow> Inl (AudioSetNotFound setName)
      | Some set' \<Rightarrow>
          if length set' = 0 then Inl (AudioSetNotFound setName)
          else let index = hour mod length set' in Inr (set' ! index))"

definition getEnabledEvents :: "event list \<Rightarrow> event list" where
  "getEnabledEvents events = filter enabled events"

section \<open>cron.js: the maintenance window\<close>

text \<open>
  \<open>_isMaintenanceWindow\<close> on the date already converted to the configured time zone.
\<close>

definition inWindow :: "wallclock \<Rightarrow> bool" where
  "inWindow t =
     (let currentTimeInMinutes = hours t * 60 + minutes t;
          isTuesday = (dayOfWeek t = 2);
          startTime = 13 * 60 + 30;
          endTime = 19 * 60 + 30
      in isTuesday \<and> currentTimeInMinutes \<ge> startTime \<and> currentTimeInMinutes < endTime)"

definition isMaintenanceWindow :: "env \<Rightarrow> bot \<Rightarrow> bool \<times> bot" where
  "isMaintenanceWindow e s =
     (if inWindow (mexicoTime e)
      then (True, logger LDebug ''Currently in maintenance window'' s)
      else (False, s))"


section \<open>connection.js: the voice connection manager\<close>

subsection \<open>The transport library\<close>

text \<open>
  \<open>getVoiceConnection\<close>, \<open>joinVoiceChannel\<close> and \<open>VoiceConnection.destroy\<close> belong to
  the transport library. They are modelled at their documented contract. The library
  tracks one connection per guild. Joining a guild that has a tracked connection asks the
  gateway to move it and returns that same object with its \<open>joinConfig\<close> as it is;
  otherwise a new object is made and tracked. The \<open>joinConfig\<close> of a connection follows
  the channel the gateway reports in a voice-state update (\<open>voiceStateUpdate\<close>). \<open>destroy\<close>
  throws on a connection already destroyed, otherwise untracks it and emits \<open>Destroyed\<close>,
  whose observer (registered by \<open>_setupConnectionHandlers\<close> with the connection's guild)
  deletes the manager's entry.
\<close>

definition getVoiceConnection :: "string \<Rightarrow> bot \<Rightarrow> conn option" where
  "getVoiceConnection gid s = registry s gid"

definition joinVoiceChannel :: "string \<Rightarrow> string \<Rightarrow> bot \<Rightarrow> conn \<times> bot" where
  "joinVoiceChannel cid gid s =
     (let s1 = act (JoinVoiceChannel gid cid) s in
      case registry s1 gid of
        Some existing \<Rightarrow> (existing, s1)
      | None \<Rightarrow>
          (let c = \<lparr>conn_id = length (created s1), conn_guild = gid, conn_channel = cid\<rparr>
           in (c, s1\<lparr>registry := (registry s1)(gid \<mapsto> c),
                     created := created s1 @ [(conn_id c, gid)]\<rparr>)))"


definition destroy :: "conn \<Rightarrow> bot \<Rightarrow> error + bot" where
  "destroy c s =
     (if conn_id c \<in> destroyed s then Inl AlreadyDestroyed
      else
        let s1 = act (Destroy (conn_id c)) s;
            s2 = s1\<lparr>destroyed := insert (conn_id c) (destroyed s1),
                    registry :=
                      (if map_option conn_id (registry s1 (conn_guild c)) = Some (conn_id c)
                       then (registry s1)(conn_guild c := None) else registry s1)\<rparr>;
            s3 = logger LInfo ''Voice connection destroyed'' s2
        in Inr (s3\<lparr>connections := (connections s3)(conn_guild c := None)\<rparr>))"

subsection \<open>VoiceConnectionManager\<close>

text \<open>
  \<open>connectToChannel\<close> after its early return: join, wait for \<open>Ready\<close> (the environment
  says whether it is reached within the 30 seconds), store the connection.
\<close>

definition openConnection :: "env \<Rightarrow> channel \<Rightarrow> bot \<Rightarrow> (error + conn) \<times> bot" where
  "openConnection e ch s =
     (let gid = ch_guild ch;
          s1 = logger LInfo ''Connecting to voice channel'' s;
          (connection, s2) = joinVoiceChannel (ch_id ch) gid s1
      in if entersReady e gid (ch_id ch)
         then (Inr connection,
               logger LInfo ''Voice connection established''
                 (s2\<lparr>connections := (connections s2)(gid \<mapsto> (conn_id connection, ch_id ch))\<rparr>))
         else (Inl (ConnectNotReady (ch_id ch)),
               logger LError ''Failed to connect to voice channel'' s2))"

definition connectToChannel :: "env \<Rightarrow> channel \<Rightarrow> bot \<Rightarrow> (error + conn) \<times> bot" where
  "connectToChannel e ch s =
     (case getVoiceConnection (ch_guild ch) s of
        Some existingConnection \<Rightarrow>
          if conn_channel existingConnection = ch_id ch
          then (Inr existingConnection, logger LDebug ''Already connected to voice channel'' s)
          else openConnection e ch s
      | None \<Rightarrow> openConnection e ch s)"

definition disconnectFromChannel :: "config \<Rightarrow> string \<Rightarrow> bot \<Rightarrow> bot" where
  "disconnectFromChannel cfg gid s =
     (case getVoiceConnection gid s of
        Some connection \<Rightarrow>
          (let s1 = logger LInfo ''Disconnecting from voice channel'' s;
               s2 = act (SetTimeout gid (disconnectDelay cfg * 1000)) s1
           in s2\<lparr>timers := timers s2 @ [gid]\<rparr>)
      | None \<Rightarrow> s)"

text \<open>The callback that \<open>disconnectFromChannel\<close> hands to \<open>setTimeout\<close>.\<close>

definition disconnectTimer :: "string \<Rightarrow> bot \<Rightarrow> error + bot" where
  "disconnectTimer gid s =
     (case getVoiceConnection gid s of
        Some c \<Rightarrow>
          (case destroy c s of
             Inl err \<Rightarrow> Inl err
           | Inr s1 \<Rightarrow> Inr (s1\<lparr>connections := (connections s1)(gid := None)\<rparr>))
      | None \<Rightarrow> Inr (s\<lparr>connections := (connections s)(gid := None)\<rparr>))"

section \<open>generator.js: the speech cache\<close>

record options =
  opt_voice :: "string option"
  opt_rate :: "string option"
  opt_pitch :: "string option"
  opt_useCache :: "bool option"

definition no_options :: options where
  "no_options = \<lparr>opt_voice = None, opt_rate = None, opt_pitch = None, opt_useCache = None\<rparr>"

text \<open>\<open>options.x || fallback\<close>: an absent or empty string gives the fallback.\<close>

definition orDefault :: "string option \<Rightarrow> string \<Rightarrow> string" where
  "orDefault v d = (case v of None \<Rightarrow> d | Some x \<Rightarrow> if x = [] then d else x)"

definition existsSync :: "env \<Rightarrow> string \<Rightarrow> bot \<Rightarrow> bool" where
  "existsSync e p s = (files s (path_resolve e p) \<noteq> None)"

definition getCacheKey :: "env \<Rightarrow> config \<Rightarrow> string \<Rightarrow> string \<Rightarrow> string" where
  "getCacheKey e cfg text voice =
     (let hash = md5hex e (text @ ''|'' @ voice @ ''|'' @ tts_rate cfg @ ''|'' @ tts_pitch cfg)
      in ''tts_'' @ hash @ ''.mp3'')"

definition getCached :: "env \<Rightarrow> config \<Rightarrow> string \<Rightarrow> string \<Rightarrow> bot \<Rightarrow> string option" where
  "getCached e cfg text voice s =
     (let cacheFile = path_join (cacheDir cfg) (getCacheKey e cfg text voice)
      in if existsSync e cacheFile s then Some cacheFile else None)"

text \<open>\<open>generate\<close> after the cache check: synthesise and write the file.\<close>

definition synthesizeToFile ::
  "env \<Rightarrow> string \<Rightarrow> string \<Rightarrow> string \<Rightarrow> string \<Rightarrow> string \<Rightarrow> bot \<Rightarrow> (error + string) \<times> bot" where
  "synthesizeToFile e cacheFile text voice rate pitch s =
     (let s1 = logger LInfo ''Generating TTS audio'' s;
          s2 = act (Synthesize text voice rate pitch) s1
      in case synthesize e text voice rate pitch of
           None \<Rightarrow> (Inl (SynthesisFailed text), logger LError ''TTS generation failed'' s2)
         | Some audio \<Rightarrow>
             (let s3 = act (WriteFile cacheFile) s2
              in if write_ok e cacheFile
                 then (Inr cacheFile,
                       logger LDebug ''TTS generation complete''
                         (s3\<lparr>files := (files s3)(path_resolve e cacheFile \<mapsto> audio)\<rparr>))
                 else (Inl (WriteFailed cacheFile), logger LError ''TTS generation failed'' s3)))"

definition generate :: "env \<Rightarrow> config \<Rightarrow> string \<Rightarrow> options \<Rightarrow> bot \<Rightarrow> (error + string) \<times> bot" where
  "generate e cfg text opts s =
     (let voice = orDefault (opt_voice opts) (tts_voice cfg);
          rate = orDefault (opt_rate opts) (tts_rate cfg);
          pitch = orDefault (opt_pitch opts) (tts_pitch cfg);
          useCache = (opt_useCache opts \<noteq> Some False)
      in case (if useCache then getCached e cfg text voice s else None) of
           Some cached \<Rightarrow> (Inr cached, logger LDebug ''Using cached TTS audio'' s)
         | None \<Rightarrow>
             (let cacheFile = path_join (cacheDir cfg) (getCacheKey e cfg text voice)
              in synthesizeToFile e cacheFile text voice rate pitch s))"


section \<open>player.js: the playback driver\<close>

subsection \<open>The engine's event emitter\<close>

text \<open>
  The engine is a Node event emitter. \<open>off\<close> removes the most recently added
  registration of a listener. \<open>emit\<close> calls the listeners registered when the emission
  starts, in registration order; a listener registered with \<open>once\<close> is removed just before
  it is called.
\<close>

definition removeListener :: "listener \<Rightarrow> listener list \<Rightarrow> listener list" where
  "removeListener l ls = rev (remove1 l (rev ls))"

definition off :: "status_event \<Rightarrow> listener \<Rightarrow> bot \<Rightarrow> bot" where
  "off ev l s = s\<lparr>listeners := (listeners s)(ev := removeListener l (listeners s ev))\<rparr>"

definition on :: "status_event \<Rightarrow> listener \<Rightarrow> bot \<Rightarrow> bot" where
  "on ev l s = s\<lparr>listeners := (listeners s)(ev := listeners s ev @ [l])\<rparr>"

text \<open>The listeners that \<open>playFile\<close> registers with \<open>once\<close>; the others are permanent.\<close>

fun once :: "listener \<Rightarrow> bool" where
  "once (OnIdle k) = True"
| "once (OnError k) = True"
| "once l = False"

text \<open>Settling a promise has an effect only while it is pending.\<close>

definition settle :: "nat \<Rightarrow> promise \<Rightarrow> bot \<Rightarrow> bot" where
  "settle k v s =
     (case promises s k of
        Some Pending \<Rightarrow> s\<lparr>promises := (promises s)(k \<mapsto> v)\<rparr>
      | _ \<Rightarrow> s)"

text \<open>The local function \<open>cleanup\<close> of the \<open>playFile\<close> call numbered \<open>k\<close>.\<close>

definition cleanup :: "nat \<Rightarrow> bot \<Rightarrow> bot" where
  "cleanup k s = off EvError (OnError k) (off EvIdle (OnIdle k) s)"

text \<open>
  The bodies of the listeners: the three handlers of \<open>_setupPlayerHandlers\<close> (the last two
  run \<open>_cleanup\<close>) and \<open>onIdle\<close>, \<open>onError\<close> of the \<open>playFile\<close> call numbered \<open>k\<close>.
\<close>

fun invoke :: "listener \<Rightarrow> string \<Rightarrow> bot \<Rightarrow> bot" where
  "invoke LogPlaying msg s = logger LDebug ''Audio player started playing'' s"
| "invoke CleanupIdle msg s =
     (logger LDebug ''Audio player finished playing'' s)\<lparr>currentResource := None\<rparr>"
| "invoke CleanupError msg s =
     (logger LError ''Audio player error'' s)\<lparr>currentResource := None\<rparr>"
| "invoke (OnIdle k) msg s = settle k Resolved (cleanup k s)"
| "invoke (OnError k) msg s = settle k (Rejected (PlayerFailed msg)) (cleanup k s)"

definition call :: "status_event \<Rightarrow> string \<Rightarrow> bot \<Rightarrow> listener \<Rightarrow> bot" where
  "call ev msg s l = invoke l msg (if once l then off ev l s else s)"

definition emit :: "status_event \<Rightarrow> string \<Rightarrow> bot \<Rightarrow> bot" where
  "emit ev msg s = foldl (call ev msg) s (listeners s ev)"

subsection \<open>AudioPlayerManager\<close>

text \<open>\<open>getPlayer\<close>: a new engine starts with the three handlers of \<open>_setupPlayerHandlers\<close>.\<close>

definition getPlayer :: "bot \<Rightarrow> bot" where
  "getPlayer s =
     (if player s then s
      else s\<lparr>player := True,
             listeners := (\<lambda>ev. case ev of EvPlaying \<Rightarrow> [LogPlaying]
                                  | EvIdle \<Rightarrow> [CleanupIdle]
                                  | EvError \<Rightarrow> [CleanupError])\<rparr>)"

text \<open>
  \<open>playFile\<close> up to the point where it returns its promise: the result is the number of
  the promise, or the error thrown. \<open>resource_ok\<close> says whether creating the resource,
  subscribing and submitting it succeed.
\<close>

definition playFile_start :: "env \<Rightarrow> string \<Rightarrow> conn \<Rightarrow> bot \<Rightarrow> (error + nat) \<times> bot" where
  "playFile_start e filePath c s =
     (let absolutePath = path_resolve e filePath in
      if \<not> existsSync e absolutePath s then (Inl (AudioFileNotFound absolutePath), s)
      else
        let s1 = logger LInfo ''Playing audio file'' s;
            s2 = getPlayer s1
        in if \<not> resource_ok e absolutePath
           then (Inl (PlayerFailed absolutePath), logger LError ''Failed to play audio file'' s2)
           else
             let s3 = s2\<lparr>currentResource := Some absolutePath\<rparr>;
                 s4 = act (Subscribe (conn_id c)) s3;
                 s5 = act (Play absolutePath) s4;
                 k = plays s5;
                 s6 = s5\<lparr>promises := (promises s5)(k \<mapsto> Pending), plays := Suc k\<rparr>;
                 s7 = on EvIdle (OnIdle k) s6;
                 s8 = on EvError (OnError k) s7
             in (Inr k, s8))"

definition run_engine :: "(status_event \<times> string) list \<Rightarrow> bot \<Rightarrow> bot" where
  "run_engine evs s = foldl (\<lambda>s (ev, msg). emit ev msg s) s evs"

text \<open>
  \<open>await playFile(...)\<close>: the promise is awaited while the engine emits its events. The
  result is \<open>None\<close> when the promise is still pending after them: the caller never resumes.
\<close>

definition playFile :: "env \<Rightarrow> string \<Rightarrow> conn \<Rightarrow> bot \<Rightarrow> (error + unit) option \<times> bot" where
  "playFile e filePath c s =
     (case playFile_start e filePath c s of
        (Inl err, s1) \<Rightarrow> (Some (Inl err), s1)
      | (Inr k, s1) \<Rightarrow>
          (let s2 = run_engine (engine e (path_resolve e filePath)) s1
           in case promises s2 k of
                Some Resolved \<Rightarrow> (Some (Inr ()), s2)
              | Some (Rejected err) \<Rightarrow> (Some (Inl err), s2)
              | _ \<Rightarrow> (None, s2)))"

section \<open>cron.js: the scheduler\<close>

definition hasUsersInChannel :: "env \<Rightarrow> string \<Rightarrow> bot \<Rightarrow> bool \<times> bot" where
  "hasUsersInChannel e cid s =
     (let s1 = act (Fetch cid) (s\<lparr>fetches := Suc (fetches s)\<rparr>) in
      case fetch e (fetches s) cid of
        Throws msg \<Rightarrow> (False, logger LError ''Failed to check channel users'' s1)
      | Returns None \<Rightarrow> (False, s1)
      | Returns (Some ch) \<Rightarrow>
          if \<not> isVoiceBased ch then (False, s1)
          else
            let humanMembers = filter (\<lambda>m. \<not> user_bot m) (members ch);
                count = length humanMembers
            in (count > 0, logger LDebug ''Channel user check'' s1))"

definition getVoiceChannel :: "env \<Rightarrow> string \<Rightarrow> bot \<Rightarrow> channel option \<times> bot" where
  "getVoiceChannel e cid s =
     (let s1 = act (Fetch cid) (s\<lparr>fetches := Suc (fetches s)\<rparr>) in
      case fetch e (fetches s) cid of
        Throws msg \<Rightarrow> (None, logger LError ''Failed to fetch voice channel'' s1)
      | Returns None \<Rightarrow> (None, s1)
      | Returns (Some ch) \<Rightarrow> if \<not> isVoiceBased ch then (None, s1) else (Some ch, s1))"

text \<open>The choice of the audio file inside \<open>_executeEventForChannel\<close>.\<close>

definition resolveAudio :: "env \<Rightarrow> config \<Rightarrow> event \<Rightarrow> bot \<Rightarrow> (error + string) \<times> bot" where
  "resolveAudio e cfg ev s =
     (if etype ev = TTS then
        (case pregeneratedAudio s (name ev) of
           Some audioPath \<Rightarrow>
             if audioPath = [] then generate e cfg (content ev) no_options s
             else (Inr audioPath, s)
         | None \<Rightarrow> generate e cfg (content ev) no_options s)
      else if etype ev = AUDIO_ROTATE then
        (case getRotatedAudio (audioSets cfg) (localHour e) (content ev) of
           Inl err \<Rightarrow> (Inl err, s)
         | Inr audioPath \<Rightarrow> (Inr audioPath, logger LDebug ''Using rotated audio'' s))
      else (Inr (content ev), s))"

datatype outcome = SkippedMaintenance | SkippedNoUsers | ChannelNotFound | Failed error | Completed

text \<open>
  What one execution reports: how it ended, and the values of its local variables
  \<open>connection\<close> and \<open>guildId\<close> when it ended.
\<close>

record result =
  outcome :: outcome
  final_connection :: "conn option"
  final_guildId :: "string option"

text \<open>
  The body of the \<open>try\<close> block. The first component is \<open>None\<close> when playback never
  settles, \<open>Some (Inl err)\<close> when the block throws, \<open>Some (Inr o)\<close> when it ends normally.
  \<open>connectToChannel\<close> returns a connection or throws, so the test \<open>!connection\<close> after it
  never succeeds.
\<close>

definition tryBlock ::
  "env \<Rightarrow> config \<Rightarrow> event \<Rightarrow> string \<Rightarrow> bot
     \<Rightarrow> ((error + outcome) option \<times> conn option \<times> string option) \<times> bot" where
  "tryBlock e cfg ev cid s =
     (case getVoiceChannel e cid s of
        (None, s1) \<Rightarrow>
          ((Some (Inr ChannelNotFound), None, None), logger LError ''Voice channel not found'' s1)
      | (Some ch, s1) \<Rightarrow>
          (let gid = ch_guild ch in
           case connectToChannel e ch s1 of
             (Inl err, s2) \<Rightarrow> ((Some (Inl err), None, Some gid), s2)
           | (Inr c, s2) \<Rightarrow>
               (let s3 = act (Delay 500) s2 in
                case resolveAudio e cfg ev s3 of
                  (Inl err, s4) \<Rightarrow> ((Some (Inl err), Some c, Some gid), s4)
                | (Inr audioPath, s4) \<Rightarrow>
                    (case playFile e audioPath c s4 of
                       (None, s5) \<Rightarrow> ((None, Some c, Some gid), s5)
                     | (Some (Inl err), s5) \<Rightarrow> ((Some (Inl err), Some c, Some gid), s5)
                     | (Some (Inr u), s5) \<Rightarrow>
                         ((Some (Inr Completed), Some c, Some gid),
                          logger LInfo ''Event playback complete'' s5)))))"

text \<open>The \<open>finally\<close> block: \<open>if (connection && guildId)\<close>; an empty string is falsy.\<close>

definition finallyBlock :: "config \<Rightarrow> conn option \<Rightarrow> string option \<Rightarrow> bot \<Rightarrow> bot" where
  "finallyBlock cfg c g s =
     (case (c, g) of
        (Some connection, Some gid) \<Rightarrow> if gid \<noteq> [] then disconnectFromChannel cfg gid s else s
      | _ \<Rightarrow> s)"

text \<open>
  \<open>_executeEventForChannel\<close>. The result is \<open>None\<close> when the execution never ends,
  because it awaits a playback that never settles; the state is then the one reached at
  that point.
\<close>

definition executeEventForChannel ::
  "env \<Rightarrow> config \<Rightarrow> event \<Rightarrow> string \<Rightarrow> bot \<Rightarrow> result option \<times> bot" where
  "executeEventForChannel e cfg ev cid s =
     (case isMaintenanceWindow e s of
        (True, s0) \<Rightarrow>
          (Some \<lparr>outcome = SkippedMaintenance, final_connection = None, final_guildId = None\<rparr>,
           logger LInfo ''Skipping event - maintenance window active'' s0)
      | (False, s0) \<Rightarrow>
          (let requireUsers' = (requireUsers ev \<noteq> Some False);
               (hasUsers, s1) = (if requireUsers' then hasUsersInChannel e cid s0 else (True, s0))
           in if requireUsers' \<and> \<not> hasUsers
              then (Some \<lparr>outcome = SkippedNoUsers, final_connection = None, final_guildId = None\<rparr>,
                    logger LInfo ''Skipping event - no users in channel'' s1)
              else
                (let s2 = logger LInfo ''Executing event for channel'' s1 in
                 case tryBlock e cfg ev cid s2 of
                   ((None, c, g), s3) \<Rightarrow> (None, s3)
                 | ((Some (Inl err), c, g), s3) \<Rightarrow>
                     (Some \<lparr>outcome = Failed err, final_connection = c, final_guildId = g\<rparr>,
                      finallyBlock cfg c g (logger LError ''Event execution failed'' s3))
                 | ((Some (Inr oc), c, g), s3) \<Rightarrow>
                     (Some \<lparr>outcome = oc, final_connection = c, final_guildId = g\<rparr>,
                      finallyBlock cfg c g s3))))"

subsection \<open>Executions that run together\<close>

text \<open>
  \<open>_executeEventForAllChannels\<close> starts one execution per configured channel and waits
  for all of them with \<open>Promise.allSettled\<close>. An execution runs without interruption from
  one \<open>await\<close> to the next, and between two of its segments segments of the other
  executions may run. A \<open>stage\<close> is the \<open>await\<close> at which an execution is suspended,
  with what it holds there: the answer of a lookup, the connection, the guild, the outcome
  of a call it awaits.
\<close>

datatype stage =
  FetchingUsers fetched
  | AwaitingHasUsers bool
  | FetchingChannel fetched
  | AwaitingGetVoiceChannel "channel option"
  | EnteringState channel conn bool
  | AwaitingConnect string "error + conn"
  | Delaying string conn
  | LoadingEdgeTTS string conn
  | Synthesizing string conn "string option"
  | AwaitingGenerate string conn "error + string"
  | AwaitingPlayFile string conn "error + nat"
  | Finished result

text \<open>
  The engine plays one resource at a time: \<open>resource_events\<close> are the events it has still
  to emit for the resource submitted last. A call of \<open>play\<close> replaces them.
\<close>

type_synonym engine_queue = "(status_event \<times> string) list"

text \<open>Leaving the \<open>try\<close> statement: normally, or through the \<open>catch\<close> block.\<close>

definition finish ::
  "config \<Rightarrow> outcome \<Rightarrow> conn option \<Rightarrow> string option \<Rightarrow> bot \<Rightarrow> stage \<times> bot" where
  "finish cfg oc c g s =
     (Finished \<lparr>outcome = oc, final_connection = c, final_guildId = g\<rparr>, finallyBlock cfg c g s)"

definition caught ::
  "config \<Rightarrow> error \<Rightarrow> conn option \<Rightarrow> string option \<Rightarrow> bot \<Rightarrow> stage \<times> bot" where
  "caught cfg err c g s = finish cfg (Failed err) c g (logger LError ''Event execution failed'' s)"

text \<open>Entering the \<open>try\<close> block, up to the lookup inside \<open>_getVoiceChannel\<close>.\<close>

definition enterTry :: "env \<Rightarrow> string \<Rightarrow> bot \<Rightarrow> stage \<times> bot" where
  "enterTry e cid s =
     (let s2 = logger LInfo ''Executing event for channel'' s
      in (FetchingChannel (fetch e (fetches s2) cid),
          act (Fetch cid) (s2\<lparr>fetches := Suc (fetches s2)\<rparr>)))"

text \<open>
  The start of \<open>_executeEventForChannel\<close>, up to its first \<open>await\<close>: the lookup inside
  \<open>_hasUsersInChannel\<close> or, when users are not required, the one inside
  \<open>_getVoiceChannel\<close>.
\<close>

definition start :: "env \<Rightarrow> config \<Rightarrow> event \<Rightarrow> string \<Rightarrow> bot \<Rightarrow> stage \<times> bot" where
  "start e cfg ev cid s =
     (case isMaintenanceWindow e s of
        (True, s0) \<Rightarrow>
          (Finished \<lparr>outcome = SkippedMaintenance, final_connection = None, final_guildId = None\<rparr>,
           logger LInfo ''Skipping event - maintenance window active'' s0)
      | (False, s0) \<Rightarrow>
          if requireUsers ev \<noteq> Some False
          then (FetchingUsers (fetch e (fetches s0) cid),
                act (Fetch cid) (s0\<lparr>fetches := Suc (fetches s0)\<rparr>))
          else enterTry e cid s0)"

text \<open>The call of \<open>playFile\<close>, up to the promise it returns or the error it throws.\<close>

definition callPlayFile ::
  "env \<Rightarrow> string \<Rightarrow> conn \<Rightarrow> string \<Rightarrow> bot \<times> engine_queue \<Rightarrow> stage \<times> bot \<times> engine_queue" where
  "callPlayFile e gid c audioPath x =
     (case playFile_start e audioPath c (fst x) of
        (Inl err, s1) \<Rightarrow> (AwaitingPlayFile gid c (Inl err), s1, snd x)
      | (Inr k, s1) \<Rightarrow> (AwaitingPlayFile gid c (Inr k), s1, engine e (path_resolve e audioPath)))"

text \<open>
  The call \<open>ttsGenerator.generate(event.content)\<close>, made without options, up to its first
  \<open>await\<close>: the cache check.
\<close>

definition callGenerate ::
  "env \<Rightarrow> config \<Rightarrow> event \<Rightarrow> string \<Rightarrow> conn \<Rightarrow> bot \<Rightarrow> stage \<times> bot" where
  "callGenerate e cfg ev gid c s =
     (case getCached e cfg (content ev) (tts_voice cfg) s of
        Some cached \<Rightarrow> (AwaitingGenerate gid c (Inr cached), logger LDebug ''Using cached TTS audio'' s)
      | None \<Rightarrow> (LoadingEdgeTTS gid c, logger LInfo ''Generating TTS audio'' s))"

text \<open>
  \<open>resume\<close> runs an execution from the \<open>await\<close> it is suspended at to its next one. An
  execution that awaits a playback whose promise is still pending stays where it is, and
  so does one that has ended.
\<close>

fun resume ::
  "env \<Rightarrow> config \<Rightarrow> event \<Rightarrow> string \<Rightarrow> stage \<Rightarrow> bot \<times> engine_queue
     \<Rightarrow> stage \<times> bot \<times> engine_queue" where
  "resume e cfg ev cid (FetchingUsers r) (s, q) =
     (case r of
        Throws msg \<Rightarrow> (AwaitingHasUsers False, logger LError ''Failed to check channel users'' s, q)
      | Returns None \<Rightarrow> (AwaitingHasUsers False, s, q)
      | Returns (Some ch) \<Rightarrow>
          if \<not> isVoiceBased ch then (AwaitingHasUsers False, s, q)
          else
            let humanMembers = filter (\<lambda>m. \<not> user_bot m) (members ch);
                count = length humanMembers
            in (AwaitingHasUsers (count > 0), logger LDebug ''Channel user check'' s, q))"
| "resume e cfg ev cid (AwaitingHasUsers hasUsers) (s, q) =
     (if \<not> hasUsers
      then (Finished \<lparr>outcome = SkippedNoUsers, final_connection = None, final_guildId = None\<rparr>,
            logger LInfo ''Skipping event - no users in channel'' s, q)
      else (fst (enterTry e cid s), snd (enterTry e cid s), q))"
| "resume e cfg ev cid (FetchingChannel r) (s, q) =
     (case r of
        Throws msg \<Rightarrow> (AwaitingGetVoiceChannel None, logger LError ''Failed to fetch voice channel'' s, q)
      | Returns None \<Rightarrow> (AwaitingGetVoiceChannel None, s, q)
      | Returns (Some ch) \<Rightarrow>
          if \<not> isVoiceBased ch then (AwaitingGetVoiceChannel None, s, q)
          else (AwaitingGetVoiceChannel (Some ch), s, q))"
| "resume e cfg ev cid (AwaitingGetVoiceChannel None) (s, q) =
     (fst (finish cfg ChannelNotFound None None (logger LError ''Voice channel not found'' s)),
      snd (finish cfg ChannelNotFound None None (logger LError ''Voice channel not found'' s)), q)"
| "resume e cfg ev cid (AwaitingGetVoiceChannel (Some ch)) (s, q) =
     (let gid = ch_guild ch;
          join = (let s1 = logger LInfo ''Connecting to voice channel'' s;
                      (connection, s2) = joinVoiceChannel (ch_id ch) gid s1
                  in (EnteringState ch connection (entersReady e gid (ch_id ch)), s2, q))
      in case getVoiceConnection gid s of
           Some existingConnection \<Rightarrow>
             if conn_channel existingConnection = ch_id ch
             then (AwaitingConnect gid (Inr existingConnection),
                   logger LDebug ''Already connected to voice channel'' s, q)
             else join
         | None \<Rightarrow> join)"
| "resume e cfg ev cid (EnteringState ch connection ready) (s, q) =
     (if ready
      then (AwaitingConnect (ch_guild ch) (Inr connection),
            logger LInfo ''Voice connection established''
              (s\<lparr>connections := (connections s)(ch_guild ch \<mapsto> (conn_id connection, ch_id ch))\<rparr>), q)
      else (AwaitingConnect (ch_guild ch) (Inl (ConnectNotReady (ch_id ch))),
            logger LError ''Failed to connect to voice channel'' s, q))"
| "resume e cfg ev cid (AwaitingConnect gid (Inl err)) (s, q) =
     (fst (caught cfg err None (Some gid) s), snd (caught cfg err None (Some gid) s), q)"
| "resume e cfg ev cid (AwaitingConnect gid (Inr c)) (s, q) = (Delaying gid c, act (Delay 500) s, q)"
| "resume e cfg ev cid (Delaying gid c) (s, q) =
     (let generate' = (fst (callGenerate e cfg ev gid c s), snd (callGenerate e cfg ev gid c s), q) in
      if etype ev = TTS then
        (case pregeneratedAudio s (name ev) of
           Some audioPath \<Rightarrow>
             if audioPath = [] then generate' else callPlayFile e gid c audioPath (s, q)
         | None \<Rightarrow> generate')
      else if etype ev = AUDIO_ROTATE then
        (case getRotatedAudio (audioSets cfg) (localHour e) (content ev) of
           Inl err \<Rightarrow>
             (fst (caught cfg err (Some c) (Some gid) s), snd (caught cfg err (Some c) (Some gid) s), q)
         | Inr audioPath \<Rightarrow>
             callPlayFile e gid c audioPath (logger LDebug ''Using rotated audio'' s, q))
      else callPlayFile e gid c (content ev) (s, q))"
| "resume e cfg ev cid (LoadingEdgeTTS gid c) (s, q) =
     (Synthesizing gid c (synthesize e (content ev) (tts_voice cfg) (tts_rate cfg) (tts_pitch cfg)),
      act (Synthesize (content ev) (tts_voice cfg) (tts_rate cfg) (tts_pitch cfg)) s, q)"
| "resume e cfg ev cid (Synthesizing gid c r) (s, q) =
     (let cacheFile = path_join (cacheDir cfg) (getCacheKey e cfg (content ev) (tts_voice cfg)) in
      case r of
        None \<Rightarrow>
          (AwaitingGenerate gid c (Inl (SynthesisFailed (content ev))),
           logger LError ''TTS generation failed'' s, q)
      | Some audio \<Rightarrow>
          (let s3 = act (WriteFile cacheFile) s
           in if write_ok e cacheFile
              then (AwaitingGenerate gid c (Inr cacheFile),
                    logger LDebug ''TTS generation complete''
                      (s3\<lparr>files := (files s3)(path_resolve e cacheFile \<mapsto> audio)\<rparr>), q)
              else (AwaitingGenerate gid c (Inl (WriteFailed cacheFile)),
                    logger LError ''TTS generation failed'' s3, q)))"
| "resume e cfg ev cid (AwaitingGenerate gid c (Inl err)) (s, q) =
     (fst (caught cfg err (Some c) (Some gid) s), snd (caught cfg err (Some c) (Some gid) s), q)"
| "resume e cfg ev cid (AwaitingGenerate gid c (Inr audioPath)) (s, q) =
     callPlayFile e gid c audioPath (s, q)"
| "resume e cfg ev cid (AwaitingPlayFile gid c (Inl err)) (s, q) =
     (fst (caught cfg err (Some c) (Some gid) s), snd (caught cfg err (Some c) (Some gid) s), q)"
| "resume e cfg ev cid (AwaitingPlayFile gid c (Inr k)) (s, q) =
     (case promises s k of
        Some Resolved \<Rightarrow>
          (fst (finish cfg Completed (Some c) (Some gid) (logger LInfo ''Event playback complete'' s)),
           snd (finish cfg Completed (Some c) (Some gid) (logger LInfo ''Event playback complete'' s)),
           q)
      | Some (Rejected err) \<Rightarrow>
          (fst (caught cfg err (Some c) (Some gid) s), snd (caught cfg err (Some c) (Some gid) s), q)
      | _ \<Rightarrow> (AwaitingPlayFile gid c (Inr k), s, q))"
| "resume e cfg ev cid (Finished r) (s, q) = (Finished r, s, q)"

text \<open>
  The executions started by one trigger: the state of the process, the events the engine
  has still to emit, and for each configured channel the stage of its execution.
\<close>

record pool =
  world :: bot
  resource_events :: engine_queue
  tasks :: "(string \<times> stage) list"

text \<open>
  What happens next is not decided by the program: either the execution at a position of
  the list is resumed, or the engine emits its next event.
\<close>

datatype move = Resume nat | EngineEmits

definition pool_step :: "env \<Rightarrow> config \<Rightarrow> event \<Rightarrow> pool \<Rightarrow> move \<Rightarrow> pool" where
  "pool_step e cfg ev p mv =
     (case mv of
        EngineEmits \<Rightarrow>
          (case resource_events p of
             [] \<Rightarrow> p
           | (x, msg) # rest \<Rightarrow> p\<lparr>world := emit x msg (world p), resource_events := rest\<rparr>)
      | Resume i \<Rightarrow>
          if i < length (tasks p) then
            (case resume e cfg ev (fst (tasks p ! i)) (snd (tasks p ! i)) (world p, resource_events p) of
               (st, s1, q1) \<Rightarrow>
                 \<lparr>world = s1, resource_events = q1,
                  tasks = (tasks p)[i := (fst (tasks p ! i), st)]\<rparr>)
          else p)"

text \<open>
  \<open>config.channelIds.map(...)\<close>: each execution is started in turn and runs up to its
  first \<open>await\<close>.
\<close>

fun launchAll ::
  "env \<Rightarrow> config \<Rightarrow> event \<Rightarrow> string list \<Rightarrow> bot \<Rightarrow> (string \<times> stage) list \<times> bot" where
  "launchAll e cfg ev [] s = ([], s)"
| "launchAll e cfg ev (cid # cids) s =
     ((cid, fst (start e cfg ev cid s)) # fst (launchAll e cfg ev cids (snd (start e cfg ev cid s))),
      snd (launchAll e cfg ev cids (snd (start e cfg ev cid s))))"

definition launchPool :: "env \<Rightarrow> config \<Rightarrow> event \<Rightarrow> bot \<times> engine_queue \<Rightarrow> pool" where
  "launchPool e cfg ev x =
     (let s1 = logger LInfo ''Executing scheduled event for all channels'' (fst x)
      in \<lparr>world = snd (launchAll e cfg ev (channelIds cfg) s1), resource_events = snd x,
          tasks = fst (launchAll e cfg ev (channelIds cfg) s1)\<rparr>)"

text \<open>
  \<open>_executeEventForAllChannels\<close>, for a given order of what happens after the executions
  have been started.
\<close>

definition executeEventForAllChannels ::
  "env \<Rightarrow> config \<Rightarrow> event \<Rightarrow> move list \<Rightarrow> bot \<times> engine_queue \<Rightarrow> pool" where
  "executeEventForAllChannels e cfg ev schedule x =
     foldl (pool_step e cfg ev) (launchPool e cfg ev x) schedule"

text \<open>
  What \<open>Promise.allSettled\<close> resolves with once every execution has ended; \<open>None\<close> while
  one has not.
\<close>

fun ended :: "stage \<Rightarrow> result option" where
  "ended (Finished r) = Some r"
| "ended st = None"

definition allSettled :: "pool \<Rightarrow> result list option" where
  "allSettled p =
     (if list_all (\<lambda>t. ended (snd t) \<noteq> None) (tasks p)
      then Some (map (\<lambda>t. the (ended (snd t))) (tasks p))
      else None)"

text \<open>\<open>_pregenerateTTS\<close>: its loop, then the method.\<close>

fun pregenerateLoop :: "env \<Rightarrow> config \<Rightarrow> event list \<Rightarrow> bot \<Rightarrow> bot" where
  "pregenerateLoop e cfg [] s = s"
| "pregenerateLoop e cfg (ev # evs) s =
     (case generate e cfg (content ev) no_options s of
        (Inr audioPath, s1) \<Rightarrow>
          pregenerateLoop e cfg evs
            (logger LDebug ''Pre-generated TTS for event''
               (s1\<lparr>pregeneratedAudio := (pregeneratedAudio s1)(name ev \<mapsto> audioPath)\<rparr>))
      | (Inl err, s1) \<Rightarrow>
          pregenerateLoop e cfg evs (logger LError ''Failed to pre-generate TTS'' s1))"

definition pregenerateTTS :: "env \<Rightarrow> config \<Rightarrow> event list \<Rightarrow> bot \<Rightarrow> bot" where
  "pregenerateTTS e cfg eventsList s =
     (let ttsEvents = filter (\<lambda>ev. etype ev = TTS) eventsList in
      if length ttsEvents = 0 then s
      else pregenerateLoop e cfg ttsEvents (logger LInfo ''Pre-generating TTS audio'' s))"

definition scheduleEvent :: "env \<Rightarrow> event \<Rightarrow> bot \<Rightarrow> bot" where
  "scheduleEvent e ev s =
     (if \<not> cron_validate e (cron ev) then logger LError ''Invalid cron expression'' s
      else
        let s1 = act (CronSchedule (cron ev)) s;
            s2 = s1\<lparr>scheduledJobs := (scheduledJobs s1)(name ev \<mapsto> ev)\<rparr>
        in logger LInfo ''Event scheduled'' s2)"

definition initialize :: "env \<Rightarrow> config \<Rightarrow> event list \<Rightarrow> bot \<Rightarrow> bot" where
  "initialize e cfg events s =
     (let enabledEvents = getEnabledEvents events in
      if length enabledEvents = 0 then logger LWarn ''No events enabled'' s
      else
        let s1 = logger LInfo ''Initializing scheduler'' s;
            s2 = pregenerateTTS e cfg enabledEvents s1
        in foldl (\<lambda>s ev. scheduleEvent e ev s) s2 enabledEvents)"

text \<open>\<open>triggerEvent\<close>: \<open>events.find\<close> returns the first event of the list with the name.\<close>

definition triggerEvent ::
  "env \<Rightarrow> config \<Rightarrow> event list \<Rightarrow> string \<Rightarrow> move list \<Rightarrow> bot \<times> engine_queue \<Rightarrow> pool" where
  "triggerEvent e cfg events eventName schedule x =
     (case find (\<lambda>ev. name ev = eventName) events of
        None \<Rightarrow> \<lparr>world = logger LError ''Event not found'' (fst x), resource_events = snd x, tasks = []\<rparr>
      | Some ev \<Rightarrow> executeEventForAllChannels e cfg ev schedule x)"

section \<open>Properties of the state\<close>


text \<open>
  The bookkeeping of the transport library is consistent: connection identities are
  unique, only connections that were made are destroyed, every connection that is alive
  is the one tracked for its guild, and a tracked connection is alive and filed under its
  own guild.
\<close>

definition tracked :: "bot \<Rightarrow> bool" where
  "tracked s \<longleftrightarrow>
     distinct (map fst (created s)) \<and>
     destroyed s \<subseteq> fst ` set (created s) \<and>
     (\<forall>(i, g) \<in> set (created s).
        i < length (created s) \<and>
        (i \<notin> destroyed s \<longrightarrow> (\<exists>c. registry s g = Some c \<and> conn_id c = i))) \<and>
     (\<forall>g c. registry s g = Some c \<longrightarrow>
        conn_guild c = g \<and> conn_id c \<notin> destroyed s \<and> (conn_id c, g) \<in> set (created s))"

text \<open>
  No observer of a \<open>playFile\<close> call that has not been made yet is registered on the
  engine.
\<close>

definition fresh :: "bot \<Rightarrow> bool" where
  "fresh s \<longleftrightarrow>
     (\<forall>ev k. plays s \<le> k \<longrightarrow>
        OnIdle k \<notin> set (listeners s ev) \<and> OnError k \<notin> set (listeners s ev))"

text \<open>
  What a sequence of engine events does to a pending \<open>playFile\<close> promise: the first idle
  event resolves it, the first error event rejects it, whichever comes first.
\<close>

fun completion :: "(status_event \<times> string) list \<Rightarrow> promise" where
  "completion [] = Pending"
| "completion ((EvPlaying, msg) # evs) = completion evs"
| "completion ((EvIdle, msg) # evs) = Resolved"
| "completion ((EvError, msg) # evs) = Rejected (PlayerFailed msg)"

text \<open>
  What concerns the \<open>playFile\<close> call numbered \<open>k\<close>: its promise and how many times its
  two observers are registered for each event.
\<close>

definition observers ::
  "nat \<Rightarrow> bot \<Rightarrow> promise option \<times> (status_event \<Rightarrow> nat) \<times> (status_event \<Rightarrow> nat)" where
  "observers k s =
     (promises s k,
      (\<lambda>ev. count_list (listeners s ev) (OnIdle k)),
      (\<lambda>ev. count_list (listeners s ev) (OnError k)))"

definition armed :: "nat \<Rightarrow> bot \<Rightarrow> bool" where
  "armed k s \<longleftrightarrow>
     observers k s =
       (Some Pending, (\<lambda>ev. if ev = EvIdle then 1 else 0), (\<lambda>ev. if ev = EvError then 1 else 0))"

definition settled :: "nat \<Rightarrow> promise \<Rightarrow> bot \<Rightarrow> bool" where
  "settled k v s \<longleftrightarrow> observers k s = (Some v, (\<lambda>ev. 0), (\<lambda>ev. 0))"

section \<open>Concrete configurations\<close>

text \<open>
  A configuration with two channels, a channel with two people and one automated
  account, a channel of another guild, another channel of the first guild, the first
  channel with automated accounts only, an environment in which every
  collaborator succeeds (Wednesday 14:15), and the state of a freshly started process
  with one audio file on disk.
\<close>

definition cfg0 :: config where
  "cfg0 = \<lparr>channelIds = [''1001'', ''1002''], audioDir = ''./audio'', cacheDir = ''./cache'',
           disconnectDelay = 5, tts_voice = ''es-MX-DaliaNeural'', tts_rate = ''+0%'',
           tts_pitch = ''+0Hz''\<rparr>"

definition ch0 :: channel where
  "ch0 = \<lparr>ch_id = ''1001'', ch_name = ''General'', ch_guild = ''77'', isVoiceBased = True,
          members = [\<lparr>user_bot = True\<rparr>, \<lparr>user_bot = False\<rparr>, \<lparr>user_bot = False\<rparr>]\<rparr>"

definition ch2 :: channel where
  "ch2 = \<lparr>ch_id = ''1002'', ch_name = ''Juegos'', ch_guild = ''78'', isVoiceBased = True,
          members = [\<lparr>user_bot = False\<rparr>]\<rparr>"

definition chMove :: channel where
  "chMove = \<lparr>ch_id = ''1003'', ch_name = ''Musica'', ch_guild = ''77'', isVoiceBased = True,
             members = [\<lparr>user_bot = False\<rparr>]\<rparr>"

definition chBots :: channel where
  "chBots = ch0\<lparr>members := [\<lparr>user_bot = True\<rparr>]\<rparr>"

definition env0 :: env where
  "env0 = \<lparr>md5hex = (\<lambda>x. x), path_resolve = (\<lambda>p. p),
           mexicoTime = \<lparr>dayOfWeek = 3, hours = 14, minutes = 15\<rparr>, localHour = 14,
           fetch = (\<lambda>n cid. Returns (Some (if cid = ''1002'' then ch2 else ch0))), entersReady = (\<lambda>g c. True),
           synthesize = (\<lambda>t v r p. Some (t @ ''@'' @ r @ ''@'' @ p)), write_ok = (\<lambda>p. True),
           resource_ok = (\<lambda>p. True), engine = (\<lambda>p. [(EvPlaying, []), (EvIdle, [])]),
           cron_validate = (\<lambda>c. True)\<rparr>"

definition bot0 :: bot where
  "bot0 = \<lparr>files = [''audio/culito.mp3'' \<mapsto> ''mp3''], registry = Map.empty, created = [],
           destroyed = {}, connections = Map.empty, timers = [], player = False,
           currentResource = None, listeners = (\<lambda>ev. []), promises = Map.empty, plays = 0,
           pregeneratedAudio = Map.empty, scheduledJobs = Map.empty, fetches = 0, trace = [],
           logs = []\<rparr>"

definition culito :: event where
  "culito = \<lparr>name = ''Culito'', cron = ''0 45 * * * *'', etype = AUDIO,
             content = ''audio/culito.mp3'', enabled = True, requireUsers = Some True\<rparr>"

definition conn0 :: conn where
  "conn0 = \<lparr>conn_id = 0, conn_guild = ''77'', conn_channel = ''1001''\<rparr>"

text \<open>The state after the bot has connected to the channel of \<open>ch0\<close>.\<close>

definition bot1 :: bot where
  "bot1 = snd (connectToChannel env0 ch0 bot0)"

text \<open>
  A disabled event, an event that names a rotation set that does not exist, and the
  state after a first playback that ended with an engine error.
\<close>

definition prueba :: event where
  "prueba = \<lparr>name = ''Prueba'', cron = ''0 0 12 * * *'', etype = AUDIO,
             content = ''audio/culito.mp3'', enabled = False, requireUsers = None\<rparr>"

definition rotNope :: event where
  "rotNope = \<lparr>name = ''Rot'', cron = ''0 15 * * * *'', etype = AUDIO_ROTATE,
              content = ''nope'', enabled = True, requireUsers = Some False\<rparr>"

definition botA :: bot where
  "botA = run_engine [(EvPlaying, []), (EvError, ''boom''), (EvIdle, [])]
            (snd (playFile_start env0 ''audio/culito.mp3'' conn0 bot0))"

section \<open>Rotation sets\<close>

text \<open>
  C4: for a registered rotation set \<open>R\<close> of length at least 1 and an hour \<open>H\<close> from 0 to 23,
  \<open>getRotatedAudio\<close> returns \<open>R[H mod N]\<close>, an index inside the set. The function takes
  the table and the hour and returns a value: it depends on nothing else and changes nothing.
\<close>

theorem getRotatedAudio_hour_mod:
  assumes "sets setName = Some R" and "length R \<ge> 1" and "H \<le> 23"
  shows "getRotatedAudio sets H setName = Inr (R ! (H mod length R)) \<and> H mod length R < length R"
  using assms by (cases R) (simp_all add: getRotatedAudio_def)

theorem getRotatedAudio_hour_mod_witness:
  "audioSets cfg0 ''shugo15'' =
     Some [''audio/shugo.mp3'', ''audio/shugo_1.mp3'', ''audio/shugo_2.mp3'']
   \<and> length [''audio/shugo.mp3'', ''audio/shugo_1.mp3'', ''audio/shugo_2.mp3''] \<ge> 1
   \<and> (14 :: nat) \<le> 23
   \<and> getRotatedAudio (audioSets cfg0) 14 ''shugo15'' = Inr ''audio/shugo_2.mp3''"
proof -
  have h: "audioSets cfg0 ''shugo15'' =
     Some [''audio/shugo.mp3'', ''audio/shugo_1.mp3'', ''audio/shugo_2.mp3'']"
    by (simp add: audioSets_def cfg0_def path_join_def path_normalize_def)
  show ?thesis
    using h getRotatedAudio_hour_mod
      [of "audioSets cfg0" "''shugo15''"
          "[''audio/shugo.mp3'', ''audio/shugo_1.mp3'', ''audio/shugo_2.mp3'']" 14]
    by simp
qed

section \<open>The gates of the pipeline\<close>

lemma inWindow_iff:
  "inWindow t \<longleftrightarrow>
     dayOfWeek t = 2 \<and> 810 \<le> hours t * 60 + minutes t \<and> hours t * 60 + minutes t < 1170"
  by (simp add: inWindow_def Let_def)

text \<open>
  C5: on a Tuesday, from minute 810 of the day inclusive to minute 1170 exclusive (in the
  configured time zone), the execution for a channel ends as skipped and changes nothing
  but the log: no lookup of the channel, no connection, no playback, whoever is in the
  channel. The trace is unchanged, so the check comes before the occupancy lookup.
\<close>

theorem maintenance_window_skips:
  assumes "dayOfWeek (mexicoTime e) = 2"
    and "810 \<le> hours (mexicoTime e) * 60 + minutes (mexicoTime e)"
    and "hours (mexicoTime e) * 60 + minutes (mexicoTime e) < 1170"
  shows "executeEventForChannel e cfg ev cid s =
           (Some \<lparr>outcome = SkippedMaintenance, final_connection = None, final_guildId = None\<rparr>,
            s\<lparr>logs := logs s @ [(LDebug, ''Currently in maintenance window''),
                                (LInfo, ''Skipping event - maintenance window active'')]\<rparr>)"
  using assms
  by (simp add: executeEventForChannel_def isMaintenanceWindow_def inWindow_iff logger_def)

theorem maintenance_window_skips_witness:
  "dayOfWeek (mexicoTime (env0\<lparr>mexicoTime := \<lparr>dayOfWeek = 2, hours = 13, minutes = 30\<rparr>\<rparr>)) = 2
   \<and> fst (executeEventForChannel (env0\<lparr>mexicoTime := \<lparr>dayOfWeek = 2, hours = 13, minutes = 30\<rparr>\<rparr>)
             cfg0 culito ''1001'' bot0)
       = Some \<lparr>outcome = SkippedMaintenance, final_connection = None, final_guildId = None\<rparr>
   \<and> trace (snd (executeEventForChannel
                    (env0\<lparr>mexicoTime := \<lparr>dayOfWeek = 2, hours = 13, minutes = 30\<rparr>\<rparr>)
                    cfg0 culito ''1001'' bot0)) = []"
  using maintenance_window_skips
    [of "env0\<lparr>mexicoTime := \<lparr>dayOfWeek = 2, hours = 13, minutes = 30\<rparr>\<rparr>" cfg0 culito "''1001''" bot0]
  by (simp add: env0_def bot0_def)

text \<open>
  C1: when \<open>requireUsers\<close> is absent or true and every member of the channel is an
  automated account, the execution ends as skipped, without error. Outside the
  maintenance window it makes the one lookup of the channel and writes the log; inside it
  only writes the log. In both cases the connections, the timers, the player and the files
  are those of the state it started in.
\<close>

theorem empty_channel_skips:
  assumes "requireUsers ev \<noteq> Some False"
    and "fetch e (fetches s) cid = Returns (Some ch)"
    and "\<forall>m \<in> set (members ch). user_bot m"
  shows "executeEventForChannel e cfg ev cid s =
           (if inWindow (mexicoTime e)
            then (Some \<lparr>outcome = SkippedMaintenance, final_connection = None, final_guildId = None\<rparr>,
                  s\<lparr>logs := logs s @ [(LDebug, ''Currently in maintenance window''),
                                      (LInfo, ''Skipping event - maintenance window active'')]\<rparr>)
            else (Some \<lparr>outcome = SkippedNoUsers, final_connection = None, final_guildId = None\<rparr>,
                  s\<lparr>fetches := Suc (fetches s), trace := trace s @ [Fetch cid],
                    logs := logs s @ (if isVoiceBased ch then [(LDebug, ''Channel user check'')] else [])
                                   @ [(LInfo, ''Skipping event - no users in channel'')]\<rparr>))"
proof -
  have none: "filter (\<lambda>m. \<not> user_bot m) (members ch) = []"
    using assms(3) by (simp add: filter_empty_conv)
  show ?thesis
    using assms(1,2) none
    by (simp add: executeEventForChannel_def isMaintenanceWindow_def hasUsersInChannel_def
        logger_def act_def Let_def)
qed

theorem empty_channel_skips_witness:
  "requireUsers culito \<noteq> Some False
   \<and> fetch (env0\<lparr>fetch := \<lambda>n cid. Returns (Some chBots)\<rparr>) (fetches bot0) ''1001''
       = Returns (Some chBots)
   \<and> fst (executeEventForChannel (env0\<lparr>fetch := \<lambda>n cid. Returns (Some chBots)\<rparr>)
             cfg0 culito ''1001'' bot0)
       = Some \<lparr>outcome = SkippedNoUsers, final_connection = None, final_guildId = None\<rparr>
   \<and> trace (snd (executeEventForChannel (env0\<lparr>fetch := \<lambda>n cid. Returns (Some chBots)\<rparr>)
                    cfg0 culito ''1001'' bot0)) = [Fetch ''1001'']"
  using empty_channel_skips
    [of culito "env0\<lparr>fetch := \<lambda>n cid. Returns (Some chBots)\<rparr>" bot0 "''1001''" chBots cfg0]
  by (simp add: env0_def bot0_def culito_def chBots_def ch0_def inWindow_iff)

section \<open>The speech cache\<close>




section \<open>Voice sessions\<close>




lemma tracked_logger [simp]: "tracked (logger l m s) = tracked s"
  by (simp add: tracked_def logger_def)

lemma tracked_act [simp]: "tracked (act a s) = tracked s"
  by (simp add: tracked_def act_def)

lemma tracked_join:
  assumes "tracked s" and "joinVoiceChannel cid gid s = (c, s1)"
  shows "tracked s1 \<and> registry s1 gid = Some c \<and> length (created s1) \<ge> length (created s)"
proof (cases "registry s gid")
  case None
  with assms(2) have c: "c = \<lparr>conn_id = length (created s), conn_guild = gid, conn_channel = cid\<rparr>"
    and s1: "s1 = (act (JoinVoiceChannel gid cid) s)\<lparr>registry := (registry s)(gid \<mapsto> c),
                 created := created s @ [(length (created s), gid)]\<rparr>"
    by (auto simp: joinVoiceChannel_def act_def Let_def)
  have fresh: "length (created s) \<notin> fst ` set (created s)"
    using assms(1) unfolding tracked_def by fastforce
  have nd: "length (created s) \<notin> destroyed s"
    using assms(1) fresh unfolding tracked_def by blast
  show ?thesis
    using assms(1) None fresh nd unfolding s1 c tracked_def act_def
    by (auto simp: less_Suc_eq split: if_splits)
next
  case (Some ex)
  with assms(2) have c: "c = ex"
    and s1: "s1 = act (JoinVoiceChannel gid cid) s"
    by (auto simp: joinVoiceChannel_def act_def Let_def)
  have "registry (act (JoinVoiceChannel gid cid) s) gid = Some ex"
    "created (act (JoinVoiceChannel gid cid) s) = created s"
    using Some by (simp_all add: act_def)
  then show ?thesis
    using assms(1) unfolding s1 c by simp
qed

lemma tracked_open:
  assumes "tracked s" and "openConnection e ch s = (r, s1)"
  shows "tracked s1"
proof -
  obtain c s2 where j: "joinVoiceChannel (ch_id ch) (ch_guild ch) (logger LInfo ''Connecting to voice channel'' s) = (c, s2)"
    by (cases "joinVoiceChannel (ch_id ch) (ch_guild ch) (logger LInfo ''Connecting to voice channel'' s)")
  have "tracked (logger LInfo ''Connecting to voice channel'' s)" using assms(1) by simp
  from tracked_join[OF this j] have t2: "tracked s2" by simp
  have t3: "tracked (s2\<lparr>connections := (connections s2)(ch_guild ch \<mapsto> (conn_id c, ch_id ch))\<rparr>)"
    using t2 by (simp add: tracked_def)
  have "s1 = logger LInfo ''Voice connection established''
               (s2\<lparr>connections := (connections s2)(ch_guild ch \<mapsto> (conn_id c, ch_id ch))\<rparr>)
        \<or> s1 = logger LError ''Failed to connect to voice channel'' s2"
    using assms(2) j by (simp add: openConnection_def Let_def split: if_splits)
  then show ?thesis using t2 t3 by auto
qed

lemma tracked_connect:
  assumes "tracked s" and "connectToChannel e ch s = (r, s1)"
  shows "tracked s1"
proof -
  have "s1 = logger LDebug ''Already connected to voice channel'' s
        \<or> openConnection e ch s = (r, s1)"
    using assms(2) by (simp add: connectToChannel_def split: option.splits if_splits)
  then show ?thesis
  proof
    assume "s1 = logger LDebug ''Already connected to voice channel'' s"
    then show ?thesis using assms(1) by simp
  next
    assume "openConnection e ch s = (r, s1)"
    with assms(1) show ?thesis by (rule tracked_open)
  qed
qed

lemma open_registry:
  assumes "openConnection e ch s = (Inr c, s1)"
  shows "registry s1 (ch_guild ch) = Some c"
  using assms
  by (auto simp: openConnection_def joinVoiceChannel_def
      logger_def act_def Let_def split: option.splits if_splits)

lemma connect_cases:
  assumes "connectToChannel e ch s = (r, s1)"
  shows "(\<exists>c. registry s (ch_guild ch) = Some c \<and> conn_channel c = ch_id ch \<and> r = Inr c
              \<and> s1 = logger LDebug ''Already connected to voice channel'' s)
         \<or> ((\<forall>c. registry s (ch_guild ch) = Some c \<longrightarrow> conn_channel c \<noteq> ch_id ch)
              \<and> openConnection e ch s = (r, s1))"
  using assms
  by (auto simp: connectToChannel_def getVoiceConnection_def split: option.splits if_splits)

lemma connect_registry:
  assumes "connectToChannel e ch s = (Inr c, s1)"
  shows "registry s1 (ch_guild ch) = Some c"
proof -
  from connect_cases[OF assms]
  have "(registry s (ch_guild ch) = Some c
          \<and> s1 = logger LDebug ''Already connected to voice channel'' s)
        \<or> openConnection e ch s = (Inr c, s1)"
    by auto
  then show ?thesis
  proof
    assume "registry s (ch_guild ch) = Some c
          \<and> s1 = logger LDebug ''Already connected to voice channel'' s"
    then show ?thesis by (simp add: logger_def)
  next
    assume "openConnection e ch s = (Inr c, s1)"
    then show ?thesis by (rule open_registry)
  qed
qed









lemma trackedI:
  assumes "distinct (map fst (created s))"
    and "destroyed s \<subseteq> fst ` set (created s)"
    and "\<And>i g. (i, g) \<in> set (created s) \<Longrightarrow> i < length (created s)"
    and "\<And>i g. (i, g) \<in> set (created s) \<Longrightarrow> i \<notin> destroyed s \<Longrightarrow>
           \<exists>c. registry s g = Some c \<and> conn_id c = i"
    and "\<And>g c. registry s g = Some c \<Longrightarrow> conn_guild c = g"
    and "\<And>g c. registry s g = Some c \<Longrightarrow> conn_id c \<notin> destroyed s"
    and "\<And>g c. registry s g = Some c \<Longrightarrow> (conn_id c, g) \<in> set (created s)"
  shows "tracked s"
  unfolding tracked_def
proof (intro conjI ballI allI impI)
  show "distinct (map fst (created s))" by (rule assms(1))
  show "destroyed s \<subseteq> fst ` set (created s)" by (rule assms(2))
next
  fix x assume x: "x \<in> set (created s)"
  obtain i g where xg: "x = (i, g)" by (cases x)
  show "case x of (i, g) \<Rightarrow> i < length (created s) \<and>
         (i \<notin> destroyed s \<longrightarrow> (\<exists>c. registry s g = Some c \<and> conn_id c = i))"
    using assms(3)[of i g] assms(4)[of i g] x unfolding xg by simp
next
  fix g c assume r: "registry s g = Some c"
  show "conn_guild c = g" using r by (rule assms(5))
  show "conn_id c \<notin> destroyed s" using r by (rule assms(6))
  show "(conn_id c, g) \<in> set (created s)" using r by (rule assms(7))
qed

lemma tracked_created:
  assumes "tracked s" and "(i, g) \<in> set (created s)"
  shows "i < length (created s)"
    and "i \<notin> destroyed s \<Longrightarrow> \<exists>c. registry s g = Some c \<and> conn_id c = i"
proof -
  have "\<forall>x \<in> set (created s). case x of (i, g) \<Rightarrow> i < length (created s) \<and>
         (i \<notin> destroyed s \<longrightarrow> (\<exists>c. registry s g = Some c \<and> conn_id c = i))"
    using assms(1) by (simp add: tracked_def)
  from bspec[OF this assms(2)]
  show "i < length (created s)"
    and "i \<notin> destroyed s \<Longrightarrow> \<exists>c. registry s g = Some c \<and> conn_id c = i"
    by simp_all
qed

lemma tracked_registry:
  assumes "tracked s" and "registry s g = Some c"
  shows "conn_guild c = g" and "conn_id c \<notin> destroyed s" and "(conn_id c, g) \<in> set (created s)"
proof -
  have "\<forall>g c. registry s g = Some c \<longrightarrow>
        conn_guild c = g \<and> conn_id c \<notin> destroyed s \<and> (conn_id c, g) \<in> set (created s)"
    using assms(1) by (simp add: tracked_def)
  with assms(2)
  show "conn_guild c = g" and "conn_id c \<notin> destroyed s" and "(conn_id c, g) \<in> set (created s)"
    by blast+
qed

lemma tracked_guild_unique:
  assumes "tracked s" and "(i, g) \<in> set (created s)" and "(i, g') \<in> set (created s)"
  shows "g = g'"
proof -
  have "distinct (map fst (created s))" using assms(1) by (simp add: tracked_def)
  then show ?thesis using assms(2,3) by (rule eq_key_imp_eq_value)
qed

lemma tracked_destroy:
  assumes "tracked s" and "registry s g = Some c"
  shows "\<exists>s1. destroy c s = Inr s1 \<and> tracked s1 \<and> registry s1 g = None
             \<and> trace s1 = trace s @ [Destroy (conn_id c)] \<and> timers s1 = timers s"
proof -
  have g: "conn_guild c = g" and nd: "conn_id c \<notin> destroyed s"
    and cr: "(conn_id c, g) \<in> set (created s)"
    using tracked_registry[OF assms] by simp_all
  define s1 where "s1 = (logger LInfo ''Voice connection destroyed''
       ((act (Destroy (conn_id c)) s)\<lparr>destroyed := insert (conn_id c) (destroyed s),
           registry := (registry s)(g := None)\<rparr>))\<lparr>connections := (connections s)(g := None)\<rparr>"
  have d: "destroy c s = Inr s1"
    using g nd assms(2) by (simp add: destroy_def s1_def Let_def act_def logger_def)
  have f: "created s1 = created s" "destroyed s1 = insert (conn_id c) (destroyed s)"
    "registry s1 = (registry s)(g := None)"
    by (simp_all add: s1_def act_def logger_def)
  have a: "distinct (map fst (created s1))" using assms(1) by (simp add: f tracked_def)
  have sub: "destroyed s \<subseteq> fst ` set (created s)" using assms(1) by (simp add: tracked_def)
  have "fst (conn_id c, g) \<in> fst ` set (created s)" using cr by (rule imageI)
  then have b: "destroyed s1 \<subseteq> fst ` set (created s1)"
    using sub by (simp add: f)
  have c1: "i < length (created s1)" if "(i, g') \<in> set (created s1)" for i g'
    using tracked_created(1)[OF assms(1), of i g'] that by (simp add: f)
  have c1': "\<exists>c'. registry s1 g' = Some c' \<and> conn_id c' = i"
    if m1: "(i, g') \<in> set (created s1)" and n: "i \<notin> destroyed s1" for i g'
  proof -
    from m1 have m: "(i, g') \<in> set (created s)" by (simp add: f)
    from n have ni: "i \<noteq> conn_id c" and n0: "i \<notin> destroyed s" by (simp_all add: f)
    from tracked_created(2)[OF assms(1) m n0]
    obtain c' where r: "registry s g' = Some c'" and ci: "conn_id c' = i" by blast
    have "g' \<noteq> g"
    proof
      assume "g' = g"
      with r assms(2) have "c' = c" by simp
      with ci ni show False by simp
    qed
    with r ci show ?thesis by (simp add: f)
  qed
  have c2: "conn_guild c' = g' \<and> conn_id c' \<notin> destroyed s1 \<and> (conn_id c', g') \<in> set (created s1)"
    if r1: "registry s1 g' = Some c'" for g' c'
  proof -
    from r1 have ne: "g' \<noteq> g" and r: "registry s g' = Some c'"
      by (simp_all add: f split: if_splits)
    note p = tracked_registry[OF assms(1) r]
    have "conn_id c' \<noteq> conn_id c"
    proof
      assume eq: "conn_id c' = conn_id c"
      have "(conn_id c, g') \<in> set (created s)" using p(3) eq by simp
      from tracked_guild_unique[OF assms(1) this cr] ne show False by simp
    qed
    with p show ?thesis by (simp add: f)
  qed
  have "tracked s1"
  proof (rule trackedI)
    show "distinct (map fst (created s1))" by (rule a)
    show "destroyed s1 \<subseteq> fst ` set (created s1)" by (rule b)
    show "\<And>i g. (i, g) \<in> set (created s1) \<Longrightarrow> i < length (created s1)" by (rule c1)
    show "\<And>i g. (i, g) \<in> set (created s1) \<Longrightarrow> i \<notin> destroyed s1 \<Longrightarrow>
           \<exists>c. registry s1 g = Some c \<and> conn_id c = i" by (rule c1')
    show "\<And>g c. registry s1 g = Some c \<Longrightarrow> conn_guild c = g" using c2 by blast
    show "\<And>g c. registry s1 g = Some c \<Longrightarrow> conn_id c \<notin> destroyed s1" using c2 by blast
    show "\<And>g c. registry s1 g = Some c \<Longrightarrow> (conn_id c, g) \<in> set (created s1)" using c2 by blast
  qed
  moreover have "registry s1 g = None" "trace s1 = trace s @ [Destroy (conn_id c)]"
    "timers s1 = timers s"
    by (simp_all add: s1_def act_def logger_def)
  ultimately show ?thesis using d by blast
qed


text \<open>
  C6: with consistent bookkeeping and a session tracked for the guild, two calls of
  \<open>disconnectFromChannel\<close> before either delay has elapsed schedule two callbacks. Both
  callbacks then run without throwing, and together with the two calls they add to the
  trace the two timers and exactly one \<open>destroy\<close> of the session.
\<close>

theorem disconnect_twice_one_teardown:
  assumes "tracked s" and "registry s g = Some c"
  shows "\<exists>s3 s4.
           timers (disconnectFromChannel cfg g (disconnectFromChannel cfg g s)) = timers s @ [g, g]
         \<and> disconnectTimer g (disconnectFromChannel cfg g (disconnectFromChannel cfg g s)) = Inr s3
         \<and> disconnectTimer g s3 = Inr s4
         \<and> trace s4 = trace s @ [SetTimeout g (disconnectDelay cfg * 1000),
                                 SetTimeout g (disconnectDelay cfg * 1000), Destroy (conn_id c)]
         \<and> registry s4 g = None"
proof -
  define s2 where "s2 = disconnectFromChannel cfg g (disconnectFromChannel cfg g s)"
  have s2: "s2 = s\<lparr>timers := timers s @ [g, g],
      trace := trace s @ [SetTimeout g (disconnectDelay cfg * 1000), SetTimeout g (disconnectDelay cfg * 1000)],
      logs := logs s @ [(LInfo, ''Disconnecting from voice channel''), (LInfo, ''Disconnecting from voice channel'')]\<rparr>"
    using assms(2)
    by (simp add: s2_def disconnectFromChannel_def getVoiceConnection_def logger_def act_def Let_def)
  have t2: "tracked s2" and r2: "registry s2 g = Some c"
    using assms by (simp_all add: s2 tracked_def)
  from tracked_destroy[OF t2 r2] obtain s3' where
    d: "destroy c s2 = Inr s3'" and r3: "registry s3' g = None"
    and tr3: "trace s3' = trace s2 @ [Destroy (conn_id c)]"
    by blast
  define s3 where "s3 = s3'\<lparr>connections := (connections s3')(g := None)\<rparr>"
  define s4 where "s4 = s3\<lparr>connections := (connections s3)(g := None)\<rparr>"
  have f1: "disconnectTimer g s2 = Inr s3"
    using r2 d by (simp add: disconnectTimer_def getVoiceConnection_def s3_def)
  have f2: "disconnectTimer g s3 = Inr s4"
    using r3 by (simp add: disconnectTimer_def getVoiceConnection_def s3_def s4_def)
  have f3: "timers s2 = timers s @ [g, g]" by (simp add: s2)
  have f4: "trace s4 = trace s @ [SetTimeout g (disconnectDelay cfg * 1000),
                                 SetTimeout g (disconnectDelay cfg * 1000), Destroy (conn_id c)]"
    using tr3 by (simp add: s4_def s3_def s2)
  have f5: "registry s4 g = None" using r3 by (simp add: s4_def s3_def)
  show ?thesis
    unfolding s2_def[symmetric] using f1 f2 f3 f4 f5 by blast
qed


lemma tracked_bot1: "tracked bot1"
proof -
  have "tracked bot0" by (simp add: tracked_def bot0_def)
  moreover have "connectToChannel env0 ch0 bot0 = (fst (connectToChannel env0 ch0 bot0), bot1)"
    by (simp add: bot1_def)
  ultimately show ?thesis by (rule tracked_connect)
qed

lemma connect_bot0: "connectToChannel env0 ch0 bot0 = (Inr conn0, bot1)"
  unfolding bot1_def
  by (simp add: connectToChannel_def openConnection_def joinVoiceChannel_def
      getVoiceConnection_def env0_def ch0_def bot0_def conn0_def logger_def act_def Let_def)

lemma registry_bot1: "registry bot1 ''77'' = Some conn0"
  using connect_registry [OF connect_bot0] by (simp add: ch0_def)




theorem disconnect_twice_one_teardown_witness:
  "registry bot1 ''77'' = Some conn0
   \<and> (\<exists>s3 s4.
         timers (disconnectFromChannel cfg0 ''77'' (disconnectFromChannel cfg0 ''77'' bot1))
           = timers bot1 @ [''77'', ''77'']
       \<and> disconnectTimer ''77'' (disconnectFromChannel cfg0 ''77'' (disconnectFromChannel cfg0 ''77'' bot1))
           = Inr s3
       \<and> disconnectTimer ''77'' s3 = Inr s4
       \<and> trace s4 = trace bot1 @ [SetTimeout ''77'' (disconnectDelay cfg0 * 1000),
                                    SetTimeout ''77'' (disconnectDelay cfg0 * 1000),
                                    Destroy (conn_id conn0)]
       \<and> registry s4 ''77'' = None)"
  using tracked_bot1 registry_bot1
    disconnect_twice_one_teardown [OF tracked_bot1 registry_bot1, of cfg0]
  by blast

section \<open>The name of the cache file\<close>

text \<open>
  C8: the name of the cache file does not depend on the rate and the pitch of the
  request. When a request with some rate and pitch has returned a file, a request for the
  same text and voice with any other rate and pitch returns that same file from the cache
  without calling the synthesis: \<open>_getCacheKey\<close> hashes the configured rate and pitch,
  while \<open>generate\<close> synthesises with the ones of the options.
\<close>

theorem cache_file_ignores_rate_and_pitch:
  assumes "generate e cfg text (opts\<lparr>opt_rate := r1, opt_pitch := p1\<rparr>) s = (Inr p, s1)"
    and "opt_useCache opts \<noteq> Some False"
  shows "generate e cfg text (opts\<lparr>opt_rate := r2, opt_pitch := p2\<rparr>) s1
           = (Inr p, logger LDebug ''Using cached TTS audio'' s1)"
  using assms
  by (auto simp: generate_def getCached_def existsSync_def synthesizeToFile_def
      logger_def act_def Let_def split: option.splits if_splits prod.splits)

theorem cache_file_ignores_rate_and_pitch_witness:
  "fst (generate env0 cfg0 ''Hola'' (no_options\<lparr>opt_rate := Some ''+50%'', opt_pitch := None\<rparr>) bot0)
     = Inr ''cache/tts_Hola|es-MX-DaliaNeural|+0%|+0Hz.mp3''
   \<and> fst (generate env0 cfg0 ''Hola'' (no_options\<lparr>opt_rate := Some ''-50%'', opt_pitch := None\<rparr>)
           (snd (generate env0 cfg0 ''Hola'' (no_options\<lparr>opt_rate := Some ''+50%'', opt_pitch := None\<rparr>) bot0)))
     = Inr ''cache/tts_Hola|es-MX-DaliaNeural|+0%|+0Hz.mp3''
   \<and> trace (snd (generate env0 cfg0 ''Hola'' (no_options\<lparr>opt_rate := Some ''-50%'', opt_pitch := None\<rparr>)
           (snd (generate env0 cfg0 ''Hola'' (no_options\<lparr>opt_rate := Some ''+50%'', opt_pitch := None\<rparr>) bot0))))
     = [Synthesize ''Hola'' ''es-MX-DaliaNeural'' ''+50%'' ''+0Hz'',
        WriteFile ''cache/tts_Hola|es-MX-DaliaNeural|+0%|+0Hz.mp3'']
   \<and> files (snd (generate env0 cfg0 ''Hola'' (no_options\<lparr>opt_rate := Some ''-50%'', opt_pitch := None\<rparr>)
           (snd (generate env0 cfg0 ''Hola'' (no_options\<lparr>opt_rate := Some ''+50%'', opt_pitch := None\<rparr>) bot0))))
         ''cache/tts_Hola|es-MX-DaliaNeural|+0%|+0Hz.mp3''
     = Some ''Hola@+50%@+0Hz''"
proof -
  let ?G = "generate env0 cfg0 ''Hola'' (no_options\<lparr>opt_rate := Some ''+50%'', opt_pitch := None\<rparr>) bot0"
  have f: "fst ?G = Inr ''cache/tts_Hola|es-MX-DaliaNeural|+0%|+0Hz.mp3''"
    by (simp add: generate_def getCached_def existsSync_def synthesizeToFile_def getCacheKey_def
        path_join_def path_normalize_def orDefault_def no_options_def env0_def cfg0_def bot0_def
        logger_def act_def Let_def)
  have t: "trace (snd ?G) = [Synthesize ''Hola'' ''es-MX-DaliaNeural'' ''+50%'' ''+0Hz'',
        WriteFile ''cache/tts_Hola|es-MX-DaliaNeural|+0%|+0Hz.mp3'']"
    by (simp add: generate_def getCached_def existsSync_def synthesizeToFile_def getCacheKey_def
        path_join_def path_normalize_def orDefault_def no_options_def env0_def cfg0_def bot0_def
        logger_def act_def Let_def)
  have c: "files (snd ?G) ''cache/tts_Hola|es-MX-DaliaNeural|+0%|+0Hz.mp3'' = Some ''Hola@+50%@+0Hz''"
    by (simp add: generate_def getCached_def existsSync_def synthesizeToFile_def getCacheKey_def
        path_join_def path_normalize_def orDefault_def no_options_def env0_def cfg0_def bot0_def
        logger_def act_def Let_def)
  have h: "?G = (Inr ''cache/tts_Hola|es-MX-DaliaNeural|+0%|+0Hz.mp3'', snd ?G)"
    using f by (simp add: prod_eq_iff)
  have u: "opt_useCache no_options \<noteq> Some False" by (simp add: no_options_def)
  have k: "generate env0 cfg0 ''Hola'' (no_options\<lparr>opt_rate := Some ''-50%'', opt_pitch := None\<rparr>) (snd ?G)
             = (Inr ''cache/tts_Hola|es-MX-DaliaNeural|+0%|+0Hz.mp3'',
                logger LDebug ''Using cached TTS audio'' (snd ?G))"
    using cache_file_ignores_rate_and_pitch [OF h u, where ?r2.0 = "Some ''-50%''" and ?p2.0 = None] .
  show ?thesis
    unfolding k using f t c by (simp add: logger_def)
qed

section \<open>The manual trigger\<close>

lemma find_by_name:
  assumes "distinct (map name events)" and "ev \<in> set events"
  shows "find (\<lambda>x. name x = name ev) events = Some ev"
  using assms
proof (induction events)
  case Nil
  then show ?case by simp
next
  case (Cons a events)
  show ?case
  proof (cases "a = ev")
    case True
    then show ?thesis by simp
  next
    case False
    with Cons.prems have in_rest: "ev \<in> set events" by simp
    then have "name ev \<in> name ` set events" by (rule imageI)
    with Cons.prems(1) have "name a \<noteq> name ev" by auto
    moreover have "find (\<lambda>x. name x = name ev) events = Some ev"
      using Cons.IH Cons.prems(1) in_rest by simp
    ultimately show ?thesis by simp
  qed
qed

lemma scheduledJobs_logger [simp]: "scheduledJobs (logger l m s) = scheduledJobs s"
  by (simp add: logger_def)

lemma scheduledJobs_act [simp]: "scheduledJobs (act a s) = scheduledJobs s"
  by (simp add: act_def)

lemma scheduledJobs_generate [simp]:
  "scheduledJobs (snd (generate e cfg text opts s)) = scheduledJobs s"
  by (simp add: generate_def synthesizeToFile_def Let_def split: option.splits)

lemma scheduledJobs_pregenerateLoop [simp]:
  "scheduledJobs (pregenerateLoop e cfg evs s) = scheduledJobs s"
proof (induction evs arbitrary: s)
  case Nil
  then show ?case by simp
next
  case (Cons ev evs)
  have g: "scheduledJobs (snd (generate e cfg (content ev) no_options s)) = scheduledJobs s"
    by simp
  show ?case
    using g by (cases "generate e cfg (content ev) no_options s")
      (auto simp: Cons.IH split: sum.splits)
qed

lemma scheduledJobs_pregenerateTTS [simp]:
  "scheduledJobs (pregenerateTTS e cfg evs s) = scheduledJobs s"
  by (simp add: pregenerateTTS_def Let_def)

lemma scheduledJobs_scheduleEvent:
  "name ev \<noteq> n \<Longrightarrow> scheduledJobs (scheduleEvent e ev s) n = scheduledJobs s n"
  by (simp add: scheduleEvent_def Let_def)

lemma scheduledJobs_schedule_all:
  "n \<notin> name ` set evs \<Longrightarrow>
     scheduledJobs (foldl (\<lambda>s ev. scheduleEvent e ev s) s evs) n = scheduledJobs s n"
  by (induction evs arbitrary: s) (auto simp: scheduledJobs_scheduleEvent)

lemma scheduledJobs_initialize:
  assumes "n \<notin> name ` set (getEnabledEvents events)"
  shows "scheduledJobs (initialize e cfg events s) n = scheduledJobs s n"
  using assms by (simp add: initialize_def Let_def scheduledJobs_schedule_all)

lemmas pipeline_defs =
  executeEventForChannel_def isMaintenanceWindow_def inWindow_def
  hasUsersInChannel_def tryBlock_def finallyBlock_def getVoiceChannel_def connectToChannel_def
  openConnection_def joinVoiceChannel_def getVoiceConnection_def disconnectFromChannel_def
  resolveAudio_def getRotatedAudio_def audioSets_def path_join_def path_normalize_def
  playFile_def playFile_start_def getPlayer_def existsSync_def run_engine_def emit_def
  call_def cleanup_def off_def on_def settle_def removeListener_def logger_def act_def Let_def

lemmas fixture_defs =
  env0_def cfg0_def culito_def prueba_def rotNope_def bot0_def ch0_def ch2_def chMove_def
  chBots_def conn0_def


section \<open>Cleanup after an execution\<close>

lemma invoke_frame:
  "timers (invoke l m s) = timers s \<and> registry (invoke l m s) = registry s"
  by (cases l)
     (simp_all add: settle_def cleanup_def off_def logger_def split: option.splits promise.splits)

lemma call_frame:
  "timers (call ev m s l) = timers s \<and> registry (call ev m s l) = registry s"
  by (simp add: call_def invoke_frame off_def)

lemma foldl_call_frame:
  "timers (foldl (call ev m) s ls) = timers s \<and> registry (foldl (call ev m) s ls) = registry s"
  by (induction ls arbitrary: s) (simp_all add: call_frame)

lemma emit_frame:
  "timers (emit ev m s) = timers s \<and> registry (emit ev m s) = registry s"
  by (simp add: emit_def foldl_call_frame)

lemma run_engine_frame:
  "timers (run_engine evs s) = timers s \<and> registry (run_engine evs s) = registry s"
  unfolding run_engine_def
  by (induction evs arbitrary: s) (simp_all add: emit_frame case_prod_beta)

lemma playFile_start_frame:
  "timers (snd (playFile_start e p c s)) = timers s
   \<and> registry (snd (playFile_start e p c s)) = registry s"
  by (simp add: playFile_start_def getPlayer_def on_def logger_def act_def Let_def)

lemma playFile_frame:
  "timers (snd (playFile e p c s)) = timers s \<and> registry (snd (playFile e p c s)) = registry s"
proof -
  obtain r s1 where st: "playFile_start e p c s = (r, s1)" by (cases "playFile_start e p c s")
  have f1: "timers s1 = timers s \<and> registry s1 = registry s"
    using playFile_start_frame[of e p c s] st by simp
  show ?thesis
    using st f1 run_engine_frame[of "engine e (path_resolve e p)" s1]
    by (simp add: playFile_def Let_def split: sum.splits option.splits promise.splits)
qed

lemma generate_frame:
  "timers (snd (generate e cfg text opts s)) = timers s
   \<and> registry (snd (generate e cfg text opts s)) = registry s"
  by (simp add: generate_def synthesizeToFile_def logger_def act_def Let_def split: option.splits)

lemma resolveAudio_frame:
  "timers (snd (resolveAudio e cfg ev s)) = timers s
   \<and> registry (snd (resolveAudio e cfg ev s)) = registry s"
  by (simp add: resolveAudio_def generate_frame logger_def split: option.splits sum.splits)

lemma getVoiceChannel_frame:
  "timers (snd (getVoiceChannel e cid s)) = timers s"
  by (simp add: getVoiceChannel_def logger_def act_def Let_def split: fetched.splits option.splits)

lemma hasUsersInChannel_frame:
  "timers (snd (hasUsersInChannel e cid s)) = timers s"
  by (simp add: hasUsersInChannel_def logger_def act_def Let_def split: fetched.splits option.splits)

lemma connectToChannel_timers:
  "timers (snd (connectToChannel e ch s)) = timers s"
  by (simp add: connectToChannel_def openConnection_def joinVoiceChannel_def getVoiceConnection_def
      logger_def act_def Let_def split: option.splits)

text \<open>What the try block leaves behind.\<close>

lemma tryBlock_session:
  assumes "tryBlock e cfg ev cid s = ((res, c, g), s3)"
  shows "timers s3 = timers s
         \<and> (c = None \<or> (\<exists>conn gid. c = Some conn \<and> g = Some gid \<and> registry s3 gid = Some conn))"
proof -
  obtain och s1 where gv: "getVoiceChannel e cid s = (och, s1)"
    by (cases "getVoiceChannel e cid s")
  have t1: "timers s1 = timers s" using getVoiceChannel_frame[of e cid s] gv by simp
  show ?thesis
  proof (cases och)
    case None
    with assms gv t1 show ?thesis by (auto simp: tryBlock_def logger_def)
  next
    case (Some ch)
    obtain rc s2 where cn: "connectToChannel e ch s1 = (rc, s2)"
      by (cases "connectToChannel e ch s1")
    have t2: "timers s2 = timers s" using connectToChannel_timers[of e ch s1] cn t1 by simp
    show ?thesis
    proof (cases rc)
      case (Inl err)
      with assms gv Some cn t2 show ?thesis by (auto simp: tryBlock_def Let_def)
    next
      case (Inr conn)
      have r2: "registry s2 (ch_guild ch) = Some conn"
        using connect_registry[of e ch s1 conn s2] cn Inr by simp
      define s3' where "s3' = act (Delay 500) s2"
      have f3: "timers s3' = timers s" "registry s3' (ch_guild ch) = Some conn"
        using t2 r2 by (simp_all add: s3'_def act_def)
      obtain ra s4 where ra: "resolveAudio e cfg ev s3' = (ra, s4)"
        by (cases "resolveAudio e cfg ev s3'")
      have f4: "timers s4 = timers s" "registry s4 (ch_guild ch) = Some conn"
        using resolveAudio_frame[of e cfg ev s3'] ra f3 by simp_all
      show ?thesis
      proof (cases ra)
        case (Inl err)
        with assms gv Some cn \<open>rc = Inr conn\<close> ra f4 show ?thesis
          by (auto simp: tryBlock_def Let_def s3'_def)
      next
        case (Inr audioPath)
        obtain rp s5 where pf: "playFile e audioPath conn s4 = (rp, s5)"
          by (cases "playFile e audioPath conn s4")
        have f5: "timers s5 = timers s" "registry s5 (ch_guild ch) = Some conn"
          using playFile_frame[of e audioPath conn s4] pf f4 by simp_all
        from assms gv Some cn \<open>rc = Inr conn\<close> ra Inr pf f5 show ?thesis
          by (auto simp: tryBlock_def Let_def s3'_def logger_def split: option.splits sum.splits)
      qed
    qed
  qed
qed

lemma finallyBlock_session:
  assumes "registry s gid = Some conn" and "gid \<noteq> []"
  shows "timers (finallyBlock cfg (Some conn') (Some gid) s) = timers s @ [gid]
         \<and> trace (finallyBlock cfg (Some conn') (Some gid) s)
             = trace s @ [SetTimeout gid (disconnectDelay cfg * 1000)]"
  using assms
  by (simp add: finallyBlock_def disconnectFromChannel_def getVoiceConnection_def
      logger_def act_def Let_def)

lemma finallyBlock_no_session:
  "finallyBlock cfg None g s = s"
  by (simp add: finallyBlock_def)

text \<open>
  C2: whenever an execution ends, however it ends: if it had obtained a session, and the
  guild identifier is not the empty string (which the \<open>finally\<close> block would take for
  absent), it has called \<open>disconnectFromChannel\<close> for the guild, which scheduled exactly
  one teardown timer as its last action; if it had obtained no session, it scheduled none.
\<close>

theorem disconnect_on_every_exit:
  assumes "executeEventForChannel e cfg ev cid s = (Some r, s')"
  shows "(\<forall>c. final_connection r = Some c \<longrightarrow>
            (\<exists>g. final_guildId r = Some g \<and>
               (g \<noteq> [] \<longrightarrow> timers s' = timers s @ [g]
                          \<and> last (trace s') = SetTimeout g (disconnectDelay cfg * 1000))))
         \<and> (final_connection r = None \<longrightarrow> timers s' = timers s)"
proof (cases "inWindow (mexicoTime e)")
  case True
  with assms show ?thesis
    by (auto simp: executeEventForChannel_def isMaintenanceWindow_def logger_def)
next
  case False
  define req where "req = (requireUsers ev \<noteq> Some False)"
  obtain hu s1 where hu: "(if req then hasUsersInChannel e cid s else (True, s)) = (hu, s1)"
    by (cases "if req then hasUsersInChannel e cid s else (True, s)")
  have t1: "timers s1 = timers s"
    using hu hasUsersInChannel_frame[of e cid s] by (auto split: if_splits)
  show ?thesis
  proof (cases "req \<and> \<not> hu")
    case True
    with assms False hu t1 show ?thesis
      by (auto simp: executeEventForChannel_def isMaintenanceWindow_def req_def logger_def Let_def)
  next
    case go: False
    define s2 where "s2 = logger LInfo ''Executing event for channel'' s1"
    obtain res c g s3 where tb: "tryBlock e cfg ev cid s2 = ((res, c, g), s3)"
      by (cases "tryBlock e cfg ev cid s2") auto
    have t3: "timers s3 = timers s"
      and sess: "c = None \<or> (\<exists>conn gid. c = Some conn \<and> g = Some gid \<and> registry s3 gid = Some conn)"
      using tryBlock_session[OF tb] t1 by (simp_all add: s2_def logger_def)
    define s4 where "s4 = (case res of Some (Inl err) \<Rightarrow> logger LError ''Event execution failed'' s3 | _ \<Rightarrow> s3)"
    have f4: "timers s4 = timers s3" "registry s4 = registry s3"
      by (simp_all add: s4_def logger_def split: option.splits sum.splits)
    have unfold: "executeEventForChannel e cfg ev cid s =
        (case res of None \<Rightarrow> (None, s3)
         | Some (Inl err) \<Rightarrow> (Some \<lparr>outcome = Failed err, final_connection = c, final_guildId = g\<rparr>,
                                finallyBlock cfg c g s4)
         | Some (Inr oc) \<Rightarrow> (Some \<lparr>outcome = oc, final_connection = c, final_guildId = g\<rparr>,
                                finallyBlock cfg c g s4))"
      using False hu go tb
      by (auto simp: executeEventForChannel_def isMaintenanceWindow_def req_def s2_def s4_def Let_def
          split: option.splits sum.splits)
    from assms unfold have r: "final_connection r = c" "final_guildId r = g"
      and s': "s' = finallyBlock cfg c g s4"
      by (auto split: option.splits sum.splits)
    from sess show ?thesis
    proof
      assume "c = None"
      with r s' f4 t3 show ?thesis by (simp add: finallyBlock_no_session)
    next
      assume "\<exists>conn gid. c = Some conn \<and> g = Some gid \<and> registry s3 gid = Some conn"
      then obtain conn gid where c: "c = Some conn" and g: "g = Some gid"
        and reg: "registry s3 gid = Some conn" by blast
      have "gid \<noteq> [] \<Longrightarrow> timers s' = timers s @ [gid]
                          \<and> last (trace s') = SetTimeout gid (disconnectDelay cfg * 1000)"
        using finallyBlock_session[of s4 gid conn cfg conn] reg f4 t3 s' c g by simp
      with r c g show ?thesis by simp
    qed
  qed
qed


theorem disconnect_on_every_exit_witness:
  "fst (executeEventForChannel env0 cfg0 culito ''1001'' bot0)
     = Some \<lparr>outcome = Completed, final_connection = Some conn0, final_guildId = Some ''77''\<rparr>
   \<and> timers (snd (executeEventForChannel env0 cfg0 culito ''1001'' bot0)) = [''77'']
   \<and> fst (executeEventForChannel env0 cfg0 rotNope ''1001'' bot0)
     = Some \<lparr>outcome = Failed (AudioSetNotFound ''nope''), final_connection = Some conn0,
             final_guildId = Some ''77''\<rparr>
   \<and> timers (snd (executeEventForChannel env0 cfg0 rotNope ''1001'' bot0)) = [''77'']
   \<and> fst (executeEventForChannel (env0\<lparr>engine := \<lambda>p. [(EvError, ''boom''), (EvIdle, [])]\<rparr>)
             cfg0 culito ''1001'' bot0)
     = Some \<lparr>outcome = Failed (PlayerFailed ''boom''), final_connection = Some conn0,
             final_guildId = Some ''77''\<rparr>
   \<and> timers (snd (executeEventForChannel (env0\<lparr>engine := \<lambda>p. [(EvError, ''boom''), (EvIdle, [])]\<rparr>)
                     cfg0 culito ''1001'' bot0)) = [''77'']
   \<and> fst (executeEventForChannel (env0\<lparr>entersReady := \<lambda>g c. False\<rparr>) cfg0 culito ''1001'' bot0)
     = Some \<lparr>outcome = Failed (ConnectNotReady ''1001''), final_connection = None,
             final_guildId = Some ''77''\<rparr>
   \<and> timers (snd (executeEventForChannel (env0\<lparr>entersReady := \<lambda>g c. False\<rparr>)
                     cfg0 culito ''1001'' bot0)) = []"
proof -
  let ?X1 = "executeEventForChannel env0 cfg0 culito ''1001'' bot0"
  let ?X2 = "executeEventForChannel env0 cfg0 rotNope ''1001'' bot0"
  let ?X3 = "executeEventForChannel (env0\<lparr>engine := \<lambda>p. [(EvError, ''boom''), (EvIdle, [])]\<rparr>)
               cfg0 culito ''1001'' bot0"
  let ?X4 = "executeEventForChannel (env0\<lparr>entersReady := \<lambda>g c. False\<rparr>) cfg0 culito ''1001'' bot0"
  have f1: "fst ?X1 = Some \<lparr>outcome = Completed, final_connection = Some conn0,
                             final_guildId = Some ''77''\<rparr>"
    by (simp add: pipeline_defs fixture_defs)
  have f2: "fst ?X2 = Some \<lparr>outcome = Failed (AudioSetNotFound ''nope''),
                             final_connection = Some conn0, final_guildId = Some ''77''\<rparr>"
    by (simp add: pipeline_defs fixture_defs)
  have f3: "fst ?X3 = Some \<lparr>outcome = Failed (PlayerFailed ''boom''),
                             final_connection = Some conn0, final_guildId = Some ''77''\<rparr>"
    by (simp add: pipeline_defs fixture_defs)
  have f4: "fst ?X4 = Some \<lparr>outcome = Failed (ConnectNotReady ''1001''),
                             final_connection = None, final_guildId = Some ''77''\<rparr>"
    by (simp add: pipeline_defs fixture_defs)
  have t0: "timers bot0 = []" by (simp add: bot0_def)
  have h1: "?X1 = (Some \<lparr>outcome = Completed, final_connection = Some conn0,
                           final_guildId = Some ''77''\<rparr>, snd ?X1)"
    using f1 by (simp add: prod_eq_iff)
  have h2: "?X2 = (Some \<lparr>outcome = Failed (AudioSetNotFound ''nope''),
                           final_connection = Some conn0, final_guildId = Some ''77''\<rparr>, snd ?X2)"
    using f2 by (simp add: prod_eq_iff)
  have h3: "?X3 = (Some \<lparr>outcome = Failed (PlayerFailed ''boom''),
                           final_connection = Some conn0, final_guildId = Some ''77''\<rparr>, snd ?X3)"
    using f3 by (simp add: prod_eq_iff)
  have h4: "?X4 = (Some \<lparr>outcome = Failed (ConnectNotReady ''1001''),
                           final_connection = None, final_guildId = Some ''77''\<rparr>, snd ?X4)"
    using f4 by (simp add: prod_eq_iff)
  have t1: "timers (snd ?X1) = [''77'']"
    using disconnect_on_every_exit [OF h1] t0 by simp
  have t2: "timers (snd ?X2) = [''77'']"
    using disconnect_on_every_exit [OF h2] t0 by simp
  have t3: "timers (snd ?X3) = [''77'']"
    using disconnect_on_every_exit [OF h3] t0 by simp
  have t4: "timers (snd ?X4) = []"
    using disconnect_on_every_exit [OF h4] t0 by simp
  show ?thesis
    using f1 f2 f3 f4 t1 t2 t3 t4 by simp
qed

section \<open>Playback observers\<close>

lemma count_removeListener:
  "count_list (removeListener a ls) b = count_list ls b - (if a = b then 1 else 0)"
  by (simp add: removeListener_def)

lemma observers_off:
  "l \<noteq> OnIdle k \<Longrightarrow> l \<noteq> OnError k \<Longrightarrow> observers k (off ev l s) = observers k s"
  by (auto simp: observers_def off_def count_removeListener fun_eq_iff)

lemma observers_settle:
  "j \<noteq> k \<Longrightarrow> observers k (settle j v s) = observers k s"
  by (simp add: observers_def settle_def split: option.splits promise.splits)

lemma observers_cleanup:
  "j \<noteq> k \<Longrightarrow> observers k (cleanup j s) = observers k s"
  by (simp add: cleanup_def observers_off)

lemma observers_logger [simp]: "observers k (logger l m s) = observers k s"
  by (simp add: observers_def logger_def)

lemma observers_invoke:
  "l \<noteq> OnIdle k \<Longrightarrow> l \<noteq> OnError k \<Longrightarrow> observers k (invoke l m s) = observers k s"
proof (cases l)
  case (OnIdle j)
  assume "l \<noteq> OnIdle k"
  with OnIdle have "j \<noteq> k" by simp
  with OnIdle show ?thesis by (simp add: observers_settle observers_cleanup)
next
  case (OnError j)
  assume "l \<noteq> OnError k"
  with OnError have "j \<noteq> k" by simp
  with OnError show ?thesis by (simp add: observers_settle observers_cleanup)
next
  case LogPlaying
  then show ?thesis by simp
next
  case CleanupIdle
  then show ?thesis by (simp add: observers_def logger_def)
next
  case CleanupError
  then show ?thesis by (simp add: observers_def logger_def)
qed

lemma observers_call:
  "l \<noteq> OnIdle k \<Longrightarrow> l \<noteq> OnError k \<Longrightarrow> observers k (call ev m s l) = observers k s"
  by (simp add: call_def observers_invoke observers_off)

lemma observers_foldl_call:
  "OnIdle k \<notin> set ls \<Longrightarrow> OnError k \<notin> set ls \<Longrightarrow>
     observers k (foldl (call ev m) s ls) = observers k s"
proof (induction ls arbitrary: s)
  case Nil
  then show ?case by simp
next
  case (Cons l ls)
  then have "l \<noteq> OnIdle k" "l \<noteq> OnError k" by auto
  then have "observers k (call ev m s l) = observers k s" by (rule observers_call)
  with Cons show ?case by simp
qed


lemma fire_idle:
  assumes "armed k s"
  shows "settled k Resolved (call EvIdle m s (OnIdle k))"
  using assms
  by (simp add: armed_def settled_def observers_def call_def cleanup_def off_def settle_def
      count_removeListener fun_eq_iff)

lemma fire_error:
  assumes "armed k s"
  shows "settled k (Rejected (PlayerFailed m)) (call EvError m s (OnError k))"
  using assms
  by (simp add: armed_def settled_def observers_def call_def cleanup_def off_def settle_def
      count_removeListener fun_eq_iff)

lemma emit_other:
  assumes "OnIdle k \<notin> set (listeners s ev)" and "OnError k \<notin> set (listeners s ev)"
  shows "observers k (emit ev m s) = observers k s"
  unfolding emit_def using assms by (rule observers_foldl_call)

lemma armed_counts:
  assumes "armed k s"
  shows "count_list (listeners s EvIdle) (OnIdle k) = Suc 0"
    and "count_list (listeners s EvError) (OnError k) = Suc 0"
    and "OnError k \<notin> set (listeners s EvIdle)"
    and "OnIdle k \<notin> set (listeners s EvError)"
    and "OnIdle k \<notin> set (listeners s EvPlaying)"
    and "OnError k \<notin> set (listeners s EvPlaying)"
proof -
  from assms have i: "\<And>ev. count_list (listeners s ev) (OnIdle k) = (if ev = EvIdle then 1 else 0)"
    and e: "\<And>ev. count_list (listeners s ev) (OnError k) = (if ev = EvError then 1 else 0)"
    by (simp_all add: armed_def observers_def fun_eq_iff)
  show "count_list (listeners s EvIdle) (OnIdle k) = Suc 0" using i[of EvIdle] by simp
  show "count_list (listeners s EvError) (OnError k) = Suc 0" using e[of EvError] by simp
  show "OnError k \<notin> set (listeners s EvIdle)" using e[of EvIdle] by (simp add: count_list_0_iff)
  show "OnIdle k \<notin> set (listeners s EvError)" using i[of EvError] by (simp add: count_list_0_iff)
  show "OnIdle k \<notin> set (listeners s EvPlaying)" using i[of EvPlaying] by (simp add: count_list_0_iff)
  show "OnError k \<notin> set (listeners s EvPlaying)" using e[of EvPlaying] by (simp add: count_list_0_iff)
qed

lemma settled_absent:
  assumes "settled k v s"
  shows "OnIdle k \<notin> set (listeners s ev)" and "OnError k \<notin> set (listeners s ev)"
  using assms by (simp_all add: settled_def observers_def fun_eq_iff count_list_0_iff)

lemma emit_settled:
  assumes "settled k v s"
  shows "settled k v (emit ev m s)"
  using assms emit_other[OF settled_absent[OF assms]] by (simp add: settled_def)

lemma emit_playing_armed:
  assumes "armed k s"
  shows "armed k (emit EvPlaying m s)"
  using assms emit_other[OF armed_counts(5,6)[OF assms]] by (simp add: armed_def)

lemma emit_idle_armed:
  assumes "armed k s"
  shows "settled k Resolved (emit EvIdle m s)"
proof -
  from count_list_Suc_split_first[OF armed_counts(1)[OF assms]]
  obtain pref rest where ls: "listeners s EvIdle = pref @ OnIdle k # rest"
    and p: "OnIdle k \<notin> set pref" and r: "count_list rest (OnIdle k) = 0" by blast
  from r have r': "OnIdle k \<notin> set rest" by (simp add: count_list_0_iff)
  from armed_counts(3)[OF assms] ls have e: "OnError k \<notin> set pref" "OnError k \<notin> set rest"
    by simp_all
  have "observers k (foldl (call EvIdle m) s pref) = observers k s"
    using p e(1) by (rule observers_foldl_call)
  with assms have "armed k (foldl (call EvIdle m) s pref)" by (simp add: armed_def)
  then have st: "settled k Resolved (call EvIdle m (foldl (call EvIdle m) s pref) (OnIdle k))"
    by (rule fire_idle)
  have "observers k (foldl (call EvIdle m) (call EvIdle m (foldl (call EvIdle m) s pref) (OnIdle k)) rest)
        = observers k (call EvIdle m (foldl (call EvIdle m) s pref) (OnIdle k))"
    using r' e(2) by (rule observers_foldl_call)
  with st show ?thesis by (simp add: emit_def ls settled_def)
qed

lemma emit_error_armed:
  assumes "armed k s"
  shows "settled k (Rejected (PlayerFailed m)) (emit EvError m s)"
proof -
  from count_list_Suc_split_first[OF armed_counts(2)[OF assms]]
  obtain pref rest where ls: "listeners s EvError = pref @ OnError k # rest"
    and p: "OnError k \<notin> set pref" and r: "count_list rest (OnError k) = 0" by blast
  from r have r': "OnError k \<notin> set rest" by (simp add: count_list_0_iff)
  from armed_counts(4)[OF assms] ls have e: "OnIdle k \<notin> set pref" "OnIdle k \<notin> set rest"
    by simp_all
  have "observers k (foldl (call EvError m) s pref) = observers k s"
    using e(1) p by (rule observers_foldl_call)
  with assms have "armed k (foldl (call EvError m) s pref)" by (simp add: armed_def)
  then have st: "settled k (Rejected (PlayerFailed m))
                   (call EvError m (foldl (call EvError m) s pref) (OnError k))"
    by (rule fire_error)
  have "observers k (foldl (call EvError m) (call EvError m (foldl (call EvError m) s pref) (OnError k)) rest)
        = observers k (call EvError m (foldl (call EvError m) s pref) (OnError k))"
    using e(2) r' by (rule observers_foldl_call)
  with st show ?thesis by (simp add: emit_def ls settled_def)
qed

lemma run_engine_Cons: "run_engine ((ev, m) # evs) s = run_engine evs (emit ev m s)"
  by (simp add: run_engine_def)

lemma run_engine_settled:
  "settled k v s \<Longrightarrow> settled k v (run_engine evs s)"
proof (induction evs arbitrary: s)
  case Nil
  then show ?case by (simp add: run_engine_def)
next
  case (Cons x evs)
  obtain ev m where x: "x = (ev, m)" by (cases x)
  from Cons.prems have "settled k v (emit ev m s)" by (rule emit_settled)
  then show ?case unfolding x run_engine_Cons by (rule Cons.IH)
qed

lemma run_engine_armed:
  "armed k s \<Longrightarrow> completion evs \<noteq> Pending \<Longrightarrow> settled k (completion evs) (run_engine evs s)"
proof (induction evs arbitrary: s rule: completion.induct)
  case 1
  then show ?case by simp
next
  case (2 msg evs)
  from "2.prems"(1) have "armed k (emit EvPlaying msg s)" by (rule emit_playing_armed)
  with "2.IH" "2.prems"(2) show ?case by (simp add: run_engine_Cons)
next
  case (3 msg evs)
  from "3.prems"(1) have "settled k Resolved (emit EvIdle msg s)" by (rule emit_idle_armed)
  then have "settled k Resolved (run_engine evs (emit EvIdle msg s))" by (rule run_engine_settled)
  then show ?case by (simp add: run_engine_Cons)
next
  case (4 msg evs)
  from "4.prems"(1) have "settled k (Rejected (PlayerFailed msg)) (emit EvError msg s)"
    by (rule emit_error_armed)
  then have "settled k (Rejected (PlayerFailed msg)) (run_engine evs (emit EvError msg s))"
    by (rule run_engine_settled)
  then show ?case by (simp add: run_engine_Cons)
qed


lemma playFile_start_armed:
  assumes "fresh s" and "playFile_start e p c s = (Inr k, s1)"
  shows "armed k s1" and "k = plays s" and "plays s1 = Suc k"
    and "\<And>ev. set (listeners s1 ev) \<subseteq> set (listeners (getPlayer s) ev) \<union> {OnIdle k, OnError k}"
proof -
  define b where "b = getPlayer (logger LInfo ''Playing audio file'' s)"
  have kb: "plays b = plays s" by (simp add: b_def getPlayer_def logger_def)
  have lb: "listeners b = listeners (getPlayer s)" by (simp add: b_def getPlayer_def logger_def)
  have fb: "OnIdle (plays s) \<notin> set (listeners b ev) \<and> OnError (plays s) \<notin> set (listeners b ev)" for ev
    using assms(1) unfolding lb by (cases ev) (auto simp: getPlayer_def fresh_def)
  from assms(2) have k: "k = plays s"
    and s1: "s1 = on EvError (OnError k) (on EvIdle (OnIdle k)
                   ((act (Play (path_resolve e p)) (act (Subscribe (conn_id c))
                      (b\<lparr>currentResource := Some (path_resolve e p)\<rparr>)))
                    \<lparr>promises := (promises b)(k \<mapsto> Pending), plays := Suc k\<rparr>))"
    by (auto simp: playFile_start_def Let_def b_def act_def logger_def getPlayer_def on_def
        split: if_splits)
  show "k = plays s" by (rule k)
  show "plays s1 = Suc k" by (simp add: s1 on_def act_def)
  have cnt: "count_list (listeners b ev) (OnIdle k) = 0" "count_list (listeners b ev) (OnError k) = 0" for ev
    using fb[of ev] by (simp_all add: k count_notin)
  show "armed k s1"
    by (simp add: armed_def observers_def s1 on_def act_def fun_eq_iff cnt)
  show "set (listeners s1 ev) \<subseteq> set (listeners (getPlayer s) ev) \<union> {OnIdle k, OnError k}" for ev
    by (auto simp: s1 on_def act_def lb split: if_splits)
qed

lemma set_removeListener: "set (removeListener l ls) \<subseteq> set ls"
  using set_remove1_subset[of l "rev ls"] by (simp add: removeListener_def)

lemma shrink_off: "set (listeners (off ev l s) ev') \<subseteq> set (listeners s ev') \<and> plays (off ev l s) = plays s"
  using set_removeListener[of l "listeners s ev"] by (simp add: off_def)

lemma shrink_invoke:
  "set (listeners (invoke l m s) ev') \<subseteq> set (listeners s ev') \<and> plays (invoke l m s) = plays s"
proof -
  have c: "set (listeners (cleanup j s) ev') \<subseteq> set (listeners s ev') \<and> plays (cleanup j s) = plays s" for j
    using shrink_off[of EvError "OnError j" "off EvIdle (OnIdle j) s" ev']
          shrink_off[of EvIdle "OnIdle j" s ev']
    by (auto simp: cleanup_def)
  have st: "listeners (settle j v t) = listeners t \<and> plays (settle j v t) = plays t" for j v t
    by (simp add: settle_def split: option.splits promise.splits)
  show ?thesis
    using c st by (cases l) (simp_all add: logger_def)
qed

lemma shrink_call:
  "set (listeners (call ev m s l) ev') \<subseteq> set (listeners s ev') \<and> plays (call ev m s l) = plays s"
  using shrink_invoke[of l m "off ev l s" ev'] shrink_invoke[of l m s ev'] shrink_off[of ev l s ev']
  by (auto simp: call_def)

lemma shrink_foldl_call:
  "set (listeners (foldl (call ev m) s ls) ev') \<subseteq> set (listeners s ev')
   \<and> plays (foldl (call ev m) s ls) = plays s"
proof (induction ls arbitrary: s)
  case Nil
  then show ?case by simp
next
  case (Cons l ls)
  from Cons.IH[of "call ev m s l"] shrink_call[of ev m s l ev'] show ?case by auto
qed

lemma shrink_emit:
  "set (listeners (emit ev m s) ev') \<subseteq> set (listeners s ev') \<and> plays (emit ev m s) = plays s"
  by (simp add: emit_def shrink_foldl_call)

lemma shrink_run_engine:
  "set (listeners (run_engine evs s) ev') \<subseteq> set (listeners s ev')
   \<and> plays (run_engine evs s) = plays s"
proof (induction evs arbitrary: s)
  case Nil
  then show ?case by (simp add: run_engine_def)
next
  case (Cons x evs)
  obtain ev m where x: "x = (ev, m)" by (cases x)
  from Cons.IH[of "emit ev m s"] shrink_emit[of ev m s ev'] show ?case
    unfolding x run_engine_Cons by auto
qed

lemma fresh_shrink:
  assumes "fresh s" and "\<And>ev. set (listeners t ev) \<subseteq> set (listeners s ev)" and "plays s \<le> plays t"
  shows "fresh t"
  unfolding fresh_def
proof (intro allI impI)
  fix ev k assume "plays t \<le> k"
  with assms(3) have "plays s \<le> k" by simp
  with assms(1) have "OnIdle k \<notin> set (listeners s ev) \<and> OnError k \<notin> set (listeners s ev)"
    by (simp add: fresh_def)
  with assms(2)[of ev] show "OnIdle k \<notin> set (listeners t ev) \<and> OnError k \<notin> set (listeners t ev)"
    by auto
qed

lemma fresh_getPlayer: "fresh s \<Longrightarrow> fresh (getPlayer s)"
proof (cases "player s")
  case True
  assume "fresh s"
  with True show ?thesis by (simp add: getPlayer_def)
next
  case False
  have "OnIdle k \<notin> set (listeners (getPlayer s) ev) \<and> OnError k \<notin> set (listeners (getPlayer s) ev)"
    for ev k
    using False by (cases ev) (simp_all add: getPlayer_def)
  then show ?thesis by (simp add: fresh_def)
qed

lemma playFile_start_fresh:
  assumes "fresh s" and "playFile_start e p c s = (Inr k, s1)"
  shows "fresh s1"
  unfolding fresh_def
proof (intro allI impI)
  fix ev j assume j: "plays s1 \<le> j"
  note a = playFile_start_armed[OF assms]
  from j a(2,3) have "plays (getPlayer s) \<le> j" and ne: "j \<noteq> k"
    by (simp_all add: getPlayer_def)
  with fresh_getPlayer[OF assms(1)]
  have "OnIdle j \<notin> set (listeners (getPlayer s) ev) \<and> OnError j \<notin> set (listeners (getPlayer s) ev)"
    by (simp add: fresh_def)
  with a(4)[of ev] ne show "OnIdle j \<notin> set (listeners s1 ev) \<and> OnError j \<notin> set (listeners s1 ev)"
    by auto
qed

text \<open>
  C9: a \<open>playFile\<close> call that has returned its promise has registered its two observers,
  and the promise is pending. Once the engine has emitted events of which one is idle or
  error, the promise is settled by the first of these (an error rejects it, idle resolves
  it), none of the two observers is registered for any event any more, and the state is
  again one in which no observer of a later call is registered.
\<close>

theorem playFile_settles_and_detaches:
  assumes "fresh s" and "playFile_start e filePath c s = (Inr k, s1)"
    and "completion evs \<noteq> Pending"
  shows "promises s1 k = Some Pending
       \<and> OnIdle k \<in> set (listeners s1 EvIdle) \<and> OnError k \<in> set (listeners s1 EvError)
       \<and> promises (run_engine evs s1) k = Some (completion evs)
       \<and> (\<forall>ev. OnIdle k \<notin> set (listeners (run_engine evs s1) ev)
               \<and> OnError k \<notin> set (listeners (run_engine evs s1) ev))
       \<and> fresh (run_engine evs s1)"
proof -
  have a: "armed k s1" using assms(1,2) by (rule playFile_start_armed(1))
  then have p: "promises s1 k = Some Pending" by (simp add: armed_def observers_def)
  have "count_list (listeners s1 EvIdle) (OnIdle k) \<noteq> 0" "count_list (listeners s1 EvError) (OnError k) \<noteq> 0"
    using armed_counts(1,2)[OF a] by simp_all
  then have reg: "OnIdle k \<in> set (listeners s1 EvIdle)" "OnError k \<in> set (listeners s1 EvError)"
    by (simp_all add: count_list_0_iff)
  have st: "settled k (completion evs) (run_engine evs s1)"
    using a assms(3) by (rule run_engine_armed)
  then have pr: "promises (run_engine evs s1) k = Some (completion evs)"
    by (simp add: settled_def observers_def)
  have det: "\<forall>ev. OnIdle k \<notin> set (listeners (run_engine evs s1) ev)
               \<and> OnError k \<notin> set (listeners (run_engine evs s1) ev)"
    using settled_absent[OF st] by simp
  have f1: "fresh s1" using assms(1,2) by (rule playFile_start_fresh)
  have fr: "fresh (run_engine evs s1)"
  proof (rule fresh_shrink[OF f1])
    show "set (listeners (run_engine evs s1) ev) \<subseteq> set (listeners s1 ev)" for ev
      using shrink_run_engine[of evs s1 ev] by simp
    show "plays s1 \<le> plays (run_engine evs s1)"
      using shrink_run_engine[of evs s1 EvIdle] by simp
  qed
  show ?thesis using p reg pr det fr by simp
qed


lemmas player_defs =
  playFile_start_def getPlayer_def existsSync_def run_engine_def emit_def
  call_def cleanup_def off_def on_def settle_def removeListener_def logger_def act_def Let_def

theorem playFile_settles_and_detaches_witness:
  "fst (playFile_start env0 ''audio/culito.mp3'' conn0 bot0) = Inr 0
   \<and> promises botA 0 = Some (Rejected (PlayerFailed ''boom''))
   \<and> listeners botA EvIdle = [CleanupIdle] \<and> listeners botA EvError = [CleanupError]
   \<and> fst (playFile_start env0 ''audio/culito.mp3'' conn0 botA) = Inr 1
   \<and> promises (run_engine [(EvPlaying, []), (EvIdle, [])]
                 (snd (playFile_start env0 ''audio/culito.mp3'' conn0 botA))) 1 = Some Resolved
   \<and> promises (run_engine [(EvPlaying, []), (EvIdle, [])]
                 (snd (playFile_start env0 ''audio/culito.mp3'' conn0 botA))) 0
       = Some (Rejected (PlayerFailed ''boom''))"
proof -
  let ?P = "''audio/culito.mp3''"
  let ?S1 = "playFile_start env0 ?P conn0 bot0"
  let ?S2 = "playFile_start env0 ?P conn0 botA"
  have fr0: "fresh bot0" by (simp add: fresh_def bot0_def)
  have f1: "fst ?S1 = Inr 0" by (simp add: player_defs fixture_defs)
  then have h1: "?S1 = (Inr 0, snd ?S1)" by (simp add: prod_eq_iff)
  have c1: "completion [(EvPlaying, []), (EvError, ''boom''), (EvIdle, [])] \<noteq> Pending" by simp
  note first = playFile_settles_and_detaches [OF fr0 h1 c1]
  have p0: "promises botA 0 = Some (Rejected (PlayerFailed ''boom''))"
    using first by (simp add: botA_def)
  have frA: "fresh botA" using first by (simp add: botA_def)
  have li: "listeners botA EvIdle = [CleanupIdle]" "listeners botA EvError = [CleanupError]"
    by (simp_all add: botA_def player_defs fixture_defs)
  have f2: "fst ?S2 = Inr 1" by (simp add: botA_def player_defs fixture_defs)
  then have h2: "?S2 = (Inr 1, snd ?S2)" by (simp add: prod_eq_iff)
  have c2: "completion [(EvPlaying, []), (EvIdle, [])] \<noteq> Pending" by simp
  note second = playFile_settles_and_detaches [OF frA h2 c2]
  have p1: "promises (run_engine [(EvPlaying, []), (EvIdle, [])] (snd ?S2)) 1 = Some Resolved"
    using second by simp
  have p0': "promises (run_engine [(EvPlaying, []), (EvIdle, [])] (snd ?S2)) 0
       = Some (Rejected (PlayerFailed ''boom''))"
    by (simp add: botA_def player_defs fixture_defs)
  show ?thesis using f1 p0 li f2 p1 p0' by simp
qed

section \<open>Executions that end\<close>

text \<open>
  The variable \<open>connection\<close> holds a session exactly when the channel was found and
  \<open>connectToChannel\<close> returned one.
\<close>

lemma tryBlock_connection:
  assumes "tryBlock e cfg ev cid s = ((res, c, g), s3)"
  shows "c = (case getVoiceChannel e cid s of
                (None, s1) \<Rightarrow> None
              | (Some ch, s1) \<Rightarrow>
                  (case fst (connectToChannel e ch s1) of Inl err \<Rightarrow> None | Inr conn \<Rightarrow> Some conn))"
  using assms
  by (auto simp: tryBlock_def Let_def split: prod.splits option.splits sum.splits)

text \<open>A \<open>playFile\<close> call that throws has registered no observer and made no promise.\<close>

lemma playFile_start_failure:
  assumes "playFile_start e p c s = (Inl err, s1)"
  shows "promises s1 = promises s \<and> plays s1 = plays s
         \<and> (\<forall>ev. listeners s1 ev = listeners (getPlayer s) ev \<or> listeners s1 ev = listeners s ev)"
  using assms
  by (auto simp: playFile_start_def getPlayer_def logger_def Let_def split: if_splits)

text \<open>
  An execution never ends only by waiting for a playback that never settles: when the
  engine reports idle or an error for every resource, \<open>playFile\<close> and the whole
  execution return.
\<close>

lemma playFile_returns:
  assumes "fresh s" and "completion (engine e (path_resolve e p)) \<noteq> Pending"
  shows "fst (playFile e p c s) \<noteq> None"
proof (cases "playFile_start e p c s")
  case (Pair r s1)
  show ?thesis
  proof (cases r)
    case (Inl err)
    with Pair show ?thesis by (simp add: playFile_def)
  next
    case (Inr k)
    with Pair have st: "playFile_start e p c s = (Inr k, s1)" by simp
    have "armed k s1" using assms(1) st by (rule playFile_start_armed(1))
    then have "settled k (completion (engine e (path_resolve e p)))
                 (run_engine (engine e (path_resolve e p)) s1)"
      using assms(2) by (rule run_engine_armed)
    then have "promises (run_engine (engine e (path_resolve e p)) s1) k
                 = Some (completion (engine e (path_resolve e p)))"
      by (simp add: settled_def observers_def)
    with assms(2) st show ?thesis
      by (simp add: playFile_def Let_def split: promise.splits)
  qed
qed


lemma getVoiceChannel_player:
  "listeners (snd (getVoiceChannel e cid s)) = listeners s
   \<and> plays (snd (getVoiceChannel e cid s)) = plays s"
  by (simp add: getVoiceChannel_def logger_def act_def Let_def split: fetched.splits option.splits)

lemma connectToChannel_player:
  "listeners (snd (connectToChannel e ch s)) = listeners s
   \<and> plays (snd (connectToChannel e ch s)) = plays s"
  by (simp add: connectToChannel_def openConnection_def joinVoiceChannel_def getVoiceConnection_def
      logger_def act_def Let_def split: option.splits)

lemma generate_player:
  "listeners (snd (generate e cfg text opts s)) = listeners s
   \<and> plays (snd (generate e cfg text opts s)) = plays s"
  by (simp add: generate_def synthesizeToFile_def logger_def act_def Let_def split: option.splits)

lemma resolveAudio_player:
  "listeners (snd (resolveAudio e cfg ev s)) = listeners s
   \<and> plays (snd (resolveAudio e cfg ev s)) = plays s"
  by (simp add: resolveAudio_def generate_player logger_def split: option.splits sum.splits)

lemma tryBlock_returns:
  assumes "fresh s" and "\<And>p. completion (engine e p) \<noteq> Pending"
  shows "fst (fst (tryBlock e cfg ev cid s)) \<noteq> None"
proof -
  obtain och s1 where gv: "getVoiceChannel e cid s = (och, s1)"
    by (cases "getVoiceChannel e cid s")
  have f1: "fresh s1"
    using getVoiceChannel_player[of e cid s] gv assms(1) by (simp add: fresh_def)
  show ?thesis
  proof (cases och)
    case None
    with gv show ?thesis by (simp add: tryBlock_def)
  next
    case (Some ch)
    obtain rc s2 where cn: "connectToChannel e ch s1 = (rc, s2)"
      by (cases "connectToChannel e ch s1")
    have f2: "fresh s2"
      using connectToChannel_player[of e ch s1] cn f1 by (simp add: fresh_def)
    show ?thesis
    proof (cases rc)
      case (Inl err)
      with gv Some cn show ?thesis by (simp add: tryBlock_def Let_def)
    next
      case (Inr conn)
      obtain ra s4 where ra: "resolveAudio e cfg ev (act (Delay 500) s2) = (ra, s4)"
        by (cases "resolveAudio e cfg ev (act (Delay 500) s2)")
      have f4: "fresh s4"
        using resolveAudio_player[of e cfg ev "act (Delay 500) s2"] ra f2
        by (simp add: fresh_def act_def)
      show ?thesis
      proof (cases ra)
        case (Inl err)
        with gv Some cn \<open>rc = Inr conn\<close> ra show ?thesis by (simp add: tryBlock_def Let_def)
      next
        case (Inr audioPath)
        have "fst (playFile e audioPath conn s4) \<noteq> None"
          using f4 assms(2) by (rule playFile_returns)
        with gv Some cn \<open>rc = Inr conn\<close> ra Inr show ?thesis
          by (auto simp: tryBlock_def Let_def split: prod.splits option.splits sum.splits)
      qed
    qed
  qed
qed

lemma hasUsersInChannel_player:
  "listeners (snd (hasUsersInChannel e cid s)) = listeners s
   \<and> plays (snd (hasUsersInChannel e cid s)) = plays s"
  by (simp add: hasUsersInChannel_def logger_def act_def Let_def split: fetched.splits option.splits)

lemma executeEventForChannel_returns:
  assumes "fresh s" and "\<And>p. completion (engine e p) \<noteq> Pending"
  shows "fst (executeEventForChannel e cfg ev cid s) \<noteq> None"
proof (cases "inWindow (mexicoTime e)")
  case True
  then show ?thesis by (simp add: executeEventForChannel_def isMaintenanceWindow_def)
next
  case False
  define req where "req = (requireUsers ev \<noteq> Some False)"
  obtain hu s1 where hu: "(if req then hasUsersInChannel e cid s else (True, s)) = (hu, s1)"
    by (cases "if req then hasUsersInChannel e cid s else (True, s)")
  have f1: "fresh s1"
    using hu hasUsersInChannel_player[of e cid s] assms(1)
    by (auto simp: fresh_def split: if_splits)
  then have f2: "fresh (logger LInfo ''Executing event for channel'' s1)"
    by (simp add: fresh_def logger_def)
  obtain res c g s3 where tb:
    "tryBlock e cfg ev cid (logger LInfo ''Executing event for channel'' s1) = ((res, c, g), s3)"
    by (cases "tryBlock e cfg ev cid (logger LInfo ''Executing event for channel'' s1)") auto
  have "res \<noteq> None" using tryBlock_returns[OF f2 assms(2), of cfg ev cid] tb by simp
  with False hu tb show ?thesis
    by (auto simp: executeEventForChannel_def isMaintenanceWindow_def req_def Let_def
        split: option.splits sum.splits)
qed


end
